theory Spec2Isabelle
  imports Main "HOL-Library.Word" "HOL-Library.List_Lexorder"
begin

section \<open>JavaScript strings\<close>

text \<open>
  A JavaScript string is a sequence of 16-bit code units; \<open>length\<close>, \<open>charAt\<close>,
  \<open>charCodeAt\<close>, \<open>substr\<close> and the default \<open>sort\<close> all work on code units. The
  lexicographic order on lists (shorter prefix first) over the unsigned order on words
  is the order of \<open>Array.prototype.sort\<close> without a comparator.
\<close>

type_synonym jschar = "16 word"
type_synonym jsstring = "jschar list"

definition js :: "string \<Rightarrow> jsstring" where
  "js s = map (\<lambda>c. of_nat (of_char c)) s"

text \<open>\<open>s.charAt(i)\<close>: the one-unit string at index \<open>i\<close>, the empty string out of range.\<close>

definition charAt :: "jsstring \<Rightarrow> nat \<Rightarrow> jsstring" where
  "charAt s i = (if i < length s then [s ! i] else [])"

text \<open>\<open>s.charCodeAt(i)\<close>: the code unit at index \<open>i\<close>; \<open>None\<close> stands for \<open>NaN\<close>,
  which is what JavaScript returns out of range and which is \<open>===\<close> to no number.\<close>

definition charCodeAt :: "jsstring \<Rightarrow> nat \<Rightarrow> nat option" where
  "charCodeAt s i = (if i < length s then Some (unat (s ! i)) else None)"

text \<open>\<open>s.substr(start, len)\<close> for a non-negative start: at most \<open>len\<close> units from \<open>start\<close>.\<close>

definition substr :: "jsstring \<Rightarrow> nat \<Rightarrow> nat \<Rightarrow> jsstring" where
  "substr s start len = take len (drop start s)"

text \<open>\<open>s.replace(/c/g, r)\<close> for a single code unit \<open>c\<close>, and
  \<open>s.replace(/[...]/g, f)\<close> for a set of code units with a replacement function.\<close>

definition replaceAll :: "jschar \<Rightarrow> jsstring \<Rightarrow> jsstring \<Rightarrow> jsstring" where
  "replaceAll c r s = concat (map (\<lambda>x. if x = c then r else [x]) s)"

definition replaceClass :: "(jschar \<Rightarrow> bool) \<Rightarrow> (jschar \<Rightarrow> jsstring) \<Rightarrow> jsstring \<Rightarrow> jsstring" where
  "replaceClass P f s = concat (map (\<lambda>x. if P x then f x else [x]) s)"

text \<open>\<open>xs.join(sep)\<close> on an array of strings.\<close>

fun join :: "jsstring \<Rightarrow> jsstring list \<Rightarrow> jsstring" where
  "join sep [] = []"
| "join sep [x] = x"
| "join sep (x # y # ys) = x @ sep @ join sep (y # ys)"

text \<open>An array read \<open>xs[i]\<close>: \<open>None\<close> stands for \<open>undefined\<close>, the value of a read
  outside the array. String concatenation turns \<open>undefined\<close> into the text
  \<open>undefined\<close>.\<close>

definition js_index :: "'a list \<Rightarrow> int \<Rightarrow> 'a option" where
  "js_index xs i = (if 0 \<le> i \<and> i < int (length xs) then Some (xs ! nat i) else None)"

definition to_string :: "jsstring option \<Rightarrow> jsstring" where
  "to_string v = (case v of None \<Rightarrow> js ''undefined'' | Some s \<Rightarrow> s)"

section \<open>Expectations and their description (syntax-error)\<close>

datatype class_part = Single jsstring | Range jsstring jsstring

datatype expectation =
    Literal jsstring
  | Class "class_part list" bool
  | Any
  | End
  | Rule jsstring
  | User jsstring
  | Not expectation

definition backslash :: jschar where "backslash = 0x5C"
definition dquote :: jschar where "dquote = 0x22"

fun hexDigit :: "nat \<Rightarrow> jschar" where
  "hexDigit d = (if d < 10 then of_nat (48 + d) else of_nat (55 + d))"

text \<open>\<open>n.toString(16).toUpperCase()\<close>.\<close>

fun toString16 :: "nat \<Rightarrow> jsstring" where
  "toString16 n = (if n < 16 then [hexDigit n] else toString16 (n div 16) @ [hexDigit (n mod 16)])"

definition hex :: "jschar \<Rightarrow> jsstring" where
  "hex ch = toString16 (unat ch)"

definition literalEscape :: "jsstring \<Rightarrow> jsstring" where
  "literalEscape s =
     replaceClass (\<lambda>x. (0x10 \<le> x \<and> x \<le> 0x1F) \<or> (0x7F \<le> x \<and> x \<le> 0x9F))
                  (\<lambda>ch. [backslash] @ js ''x'' @ hex ch)
    (replaceClass (\<lambda>x. x \<le> 0x0F) (\<lambda>ch. [backslash] @ js ''x0'' @ hex ch)
    (replaceAll 0x0D ([backslash] @ js ''r'')
    (replaceAll 0x0A ([backslash] @ js ''n'')
    (replaceAll 0x09 ([backslash] @ js ''t'')
    (replaceAll 0x00 ([backslash] @ js ''0'')
    (replaceAll dquote [backslash, dquote]
    (replaceAll backslash [backslash, backslash] s)))))))"

definition classEscape :: "jsstring \<Rightarrow> jsstring" where
  "classEscape s =
     replaceClass (\<lambda>x. (0x10 \<le> x \<and> x \<le> 0x1F) \<or> (0x7F \<le> x \<and> x \<le> 0x9F))
                  (\<lambda>ch. [backslash] @ js ''x'' @ hex ch)
    (replaceClass (\<lambda>x. x \<le> 0x0F) (\<lambda>ch. [backslash] @ js ''x0'' @ hex ch)
    (replaceAll 0x0D ([backslash] @ js ''r'')
    (replaceAll 0x0A ([backslash] @ js ''n'')
    (replaceAll 0x09 ([backslash] @ js ''t'')
    (replaceAll 0x00 ([backslash] @ js ''0'')
    (replaceAll 0x2D ([backslash] @ js ''-'')
    (replaceAll 0x5E ([backslash] @ js ''^'')
    (replaceAll 0x5D ([backslash] @ js '']'')
    (replaceAll backslash [backslash, backslash] s)))))))))"

fun describePart :: "class_part \<Rightarrow> jsstring" where
  "describePart (Range lo hi) = classEscape lo @ js ''-'' @ classEscape hi"
| "describePart (Single c) = classEscape c"

text \<open>In the \<open>class\<close> case the array of escaped parts is concatenated to a string, which
  joins its elements with a comma.\<close>

fun describeExpectation :: "expectation \<Rightarrow> jsstring" where
  "describeExpectation (Literal t) = [dquote] @ literalEscape t @ [dquote]"
| "describeExpectation (Class parts inverted) =
     js ''['' @ (if inverted then js ''^'' else []) @ join (js '','') (map describePart parts) @ js '']''"
| "describeExpectation Any = js ''any character''"
| "describeExpectation End = js ''end of input''"
| "describeExpectation (Rule description) = description"
| "describeExpectation (User description) = description"
| "describeExpectation (Not e) = js ''not '' @ describeExpectation e"

text \<open>The in-place loop of \<open>describeExpected\<close> that drops adjacent duplicates:
  \<open>i\<close> reads, \<open>j\<close> writes, and the array is cut to \<open>j\<close> elements at the end.\<close>

function dedup_loop :: "jsstring list \<Rightarrow> nat \<Rightarrow> nat \<Rightarrow> jsstring list" where
  "dedup_loop ds i j =
     (if i < length ds
      then (if ds ! (i - 1) \<noteq> ds ! i
            then dedup_loop (ds[j := ds ! i]) (i + 1) (j + 1)
            else dedup_loop ds (i + 1) j)
      else take j ds)"
  by pat_completeness auto
termination
  by (relation "measure (\<lambda>(ds, i, j). length ds - i)") auto

definition dedup :: "jsstring list \<Rightarrow> jsstring list" where
  "dedup ds = (if length ds > 0 then dedup_loop ds 1 1 else ds)"

definition joinDescriptions :: "jsstring list \<Rightarrow> jsstring" where
  "joinDescriptions ds =
     (if length ds = 1 then ds ! 0
      else if length ds = 2 then ds ! 0 @ js '' or '' @ ds ! 1
      else join (js '', '') (butlast ds) @ js '', or ''
           @ to_string (js_index ds (int (length ds) - 1)))"

definition describeExpected :: "expectation list \<Rightarrow> jsstring" where
  "describeExpected expected = joinDescriptions (dedup (sort (map describeExpectation expected)))"

text \<open>\<open>found ? ... : ...\<close> tests truthiness: \<open>null\<close> and the empty string are both falsy.\<close>

definition describeFound :: "jsstring option \<Rightarrow> jsstring" where
  "describeFound found =
     (case found of
        None \<Rightarrow> js ''end of input''
      | Some f \<Rightarrow> if f \<noteq> [] then [dquote] @ literalEscape f @ [dquote] else js ''end of input'')"

definition buildMessage :: "expectation list \<Rightarrow> jsstring option \<Rightarrow> jsstring" where
  "buildMessage expected found =
     js ''Expected '' @ describeExpected expected @ js '' but '' @ describeFound found @ js '' found.''"

section \<open>The error value (syntax-error)\<close>

record position =
  pos_offset :: nat
  pos_line :: nat
  pos_column :: nat

record 'src location =
  loc_source :: 'src
  loc_start :: position
  loc_end :: position

text \<open>The fields of a \<open>SyntaxError\<close>; \<open>None\<close> is \<open>null\<close>.\<close>

record 'src syntaxError =
  message :: jsstring
  se_location :: "'src location"
  se_expected :: "expectation list option"
  se_found :: "jsstring option"

definition buildStructuredError ::
  "expectation list \<Rightarrow> jsstring option \<Rightarrow> 'src location \<Rightarrow> 'src syntaxError" where
  "buildStructuredError expected found location =
     \<lparr>message = buildMessage expected found, se_location = location,
      se_expected = Some expected, se_found = found\<rparr>"

text \<open>
  How a call can end without returning: a \<open>TypeError\<close> of the JavaScript runtime (a
  property read on \<open>undefined\<close>), a thrown \<open>SyntaxError\<close>, or a loop that never exits.
\<close>

datatype 'src failure = TypeError | Thrown "'src syntaxError" | Diverges

section \<open>The parser state (parser-state)\<close>

record posDetails =
  line :: nat
  column :: nat

record frame =
  frame_offset :: nat
  variants :: "expectation list"

text \<open>
  Offsets, lines and columns are the non-negative integers among the JavaScript
  numbers, taken below \<open>2^53\<close>, where incrementing a number is exact.

  The fields \<open>input\<close>, \<open>_source\<close>, \<open>_offset\<close>, \<open>_mark\<close>, \<open>_expected\<close> and \<open>_cache\<close>.
  The stack \<open>_expected\<close> is a list in array order: \<open>push\<close> appends, \<open>pop\<close> removes the
  last element, index 0 is the bottom. The sparse array \<open>_cache\<close> is a map from
  indices to entries; an index without an entry reads \<open>undefined\<close>.
\<close>

record 'src ParserState =
  input :: jsstring
  source :: 'src
  offset :: nat
  mark :: nat
  expected :: "frame list"
  cache :: "nat \<rightharpoonup> posDetails"

text \<open>The constructor: the array literal \<open>[{ line, column }]\<close> has its one element at
  index 0.\<close>

definition new_ParserState :: "jsstring \<Rightarrow> 'src \<Rightarrow> nat \<Rightarrow> nat \<Rightarrow> nat \<Rightarrow> 'src ParserState" where
  "new_ParserState inp src off ln col =
     \<lparr>input = inp, source = src, offset = off, mark = off, expected = [],
      cache = [0 \<mapsto> \<lparr>line = ln, column = col\<rparr>]\<rparr>"

datatype 'r result = FAILED | Matched 'r

subsection \<open>Primitive matchers\<close>

definition matchAny :: "'src ParserState \<Rightarrow> jsstring result \<times> 'src ParserState" where
  "matchAny s =
     (let off = offset s in
      if length (input s) > off
      then (Matched (charAt (input s) off), s\<lparr>offset := offset s + 1\<rparr>)
      else (FAILED, s))"

text \<open>A regular expression is the predicate \<open>regexp.test\<close> on strings.\<close>

definition matchClass :: "(jsstring \<Rightarrow> bool) \<Rightarrow> 'src ParserState \<Rightarrow> jsstring result \<times> 'src ParserState" where
  "matchClass regexp_test s =
     (let off = offset s; chr = charAt (input s) off in
      if regexp_test chr
      then (Matched chr, s\<lparr>offset := offset s + 1\<rparr>)
      else (FAILED, s))"

definition matchChar :: "jsstring \<Rightarrow> nat \<Rightarrow> 'src ParserState \<Rightarrow> jsstring result \<times> 'src ParserState" where
  "matchChar char charCode s =
     (if charCodeAt (input s) (offset s) = Some charCode
      then (Matched char, s\<lparr>offset := offset s + 1\<rparr>)
      else (FAILED, s))"

definition matchLiteral :: "jsstring \<Rightarrow> 'src ParserState \<Rightarrow> jsstring result \<times> 'src ParserState" where
  "matchLiteral literal s =
     (let len = length literal; txt = substr (input s) (offset s) len in
      if txt = literal
      then (Matched literal, s\<lparr>offset := offset s + len\<rparr>)
      else (FAILED, s))"

text \<open>Two regular expressions as their \<open>test\<close>: \<open>/^[a]/\<close>, which accepts the strings
  that start with \<open>a\<close> (of the strings \<open>matchClass\<close> tests, the string \<open>a\<close>), and
  \<open>/(?:)/\<close>, which accepts every string, the empty one too.\<close>

definition regexp_class_a :: "jsstring \<Rightarrow> bool" where
  "regexp_class_a chr = (take 1 chr = js ''a'')"

definition regexp_empty :: "jsstring \<Rightarrow> bool" where
  "regexp_empty chr = True"

text \<open>\<open>String.prototype.toLowerCase\<close> is a parameter: the properties below hold for
  every function on strings.\<close>

definition matchLiteralIC ::
  "(jsstring \<Rightarrow> jsstring) \<Rightarrow> jsstring \<Rightarrow> 'src ParserState \<Rightarrow> jsstring result \<times> 'src ParserState" where
  "matchLiteralIC toLowerCase literal s =
     (let len = length literal; txt = substr (input s) (offset s) len in
      if toLowerCase txt = literal
      then (Matched txt, s\<lparr>offset := offset s + len\<rparr>)
      else (FAILED, s))"

text \<open>\<open>toLowerCase\<close> on strings whose code units are ASCII or U+0130 (capital I with dot
  above, which lower-cases to the two units \<open>i\<close>, U+0307); it is used at such strings
  only.\<close>

definition toLowerCase_unit :: "jschar \<Rightarrow> jsstring" where
  "toLowerCase_unit u =
     (if 0x41 \<le> u \<and> u \<le> 0x5A then [u + 0x20]
      else if u = 0x130 then [0x69, 0x307]
      else [u])"

definition toLowerCase_basic :: "jsstring \<Rightarrow> jsstring" where
  "toLowerCase_basic s = concat (map toLowerCase_unit s)"

subsection \<open>The expectation stack\<close>

definition p_begin :: "'src ParserState \<Rightarrow> 'src ParserState" where
  "p_begin s = s\<lparr>expected := expected s @ [\<lparr>frame_offset = offset s, variants = []\<rparr>]\<rparr>"

fun invert_expectation :: "expectation \<Rightarrow> expectation" where
  "invert_expectation (Not e) = e"
| "invert_expectation e = Not e"

text \<open>\<open>_end\<close>: on an empty stack \<open>expected.variants\<close> reads a property of \<open>undefined\<close>;
  on a stack of one frame \<open>top.offset\<close> does.\<close>

definition p_end :: "bool \<Rightarrow> 'src ParserState \<Rightarrow> 'src failure + 'src ParserState" where
  "p_end invert s =
     (if expected s = [] then Inl TypeError
      else
        let popped = last (expected s);
            rest = butlast (expected s)
        in if rest = [] then Inl TypeError
           else
             let top = last rest;
                 vs = variants popped
             in if frame_offset top \<noteq> frame_offset popped then Inr (s\<lparr>expected := rest\<rparr>)
                else
                  let vs' = (if invert then map invert_expectation vs else vs)
                  in Inr (s\<lparr>expected := butlast rest @ [top\<lparr>variants := variants top @ vs'\<rparr>]\<rparr>))"

definition p_expect :: "expectation \<Rightarrow> 'src ParserState \<Rightarrow> 'src failure + 'src ParserState" where
  "p_expect e s =
     (if expected s = [] then Inl TypeError
      else
        let top = last (expected s)
        in if offset s < frame_offset top then Inr s
           else
             let top' = (if offset s > frame_offset top
                         then top\<lparr>frame_offset := offset s, variants := []\<rparr>
                         else top)
             in Inr (s\<lparr>expected := butlast (expected s) @ [top'\<lparr>variants := variants top' @ [e]\<rparr>]\<rparr>))"

text \<open>A run of \<open>_expect\<close> calls, the current offset set anew before each of them.\<close>

fun expect_calls :: "(nat \<times> expectation) list \<Rightarrow> 'src ParserState \<Rightarrow> 'src failure + 'src ParserState" where
  "expect_calls [] s = Inr s"
| "expect_calls ((off, e) # cs) s =
     (case p_expect e (s\<lparr>offset := off\<rparr>) of
        Inl err \<Rightarrow> Inl err
      | Inr s' \<Rightarrow> expect_calls cs s')"

subsection \<open>Positions\<close>

text \<open>
  The search of \<open>_computePosDetails\<close> for the nearest cached entry below \<open>pos\<close>:
  \<open>do { --p; details = this._cache[p]; } while (!details)\<close>. An entry is an object,
  so it is truthy exactly when it is there. When no index below \<open>pos\<close> has an entry,
  \<open>p\<close> goes below zero, where the array has none either, and the loop never exits:
  that is the result \<open>None\<close>.
\<close>

fun scan_back :: "(nat \<rightharpoonup> posDetails) \<Rightarrow> nat \<Rightarrow> (nat \<times> posDetails) option" where
  "scan_back c 0 = None"
| "scan_back c (Suc p) = (case c p of Some d \<Rightarrow> Some (p, d) | None \<Rightarrow> scan_back c p)"

text \<open>The loop \<open>while (p < pos) { ...; p++ }\<close> on the copy of the entry found.\<close>

function scan_fwd :: "jsstring \<Rightarrow> posDetails \<Rightarrow> nat \<Rightarrow> nat \<Rightarrow> posDetails" where
  "scan_fwd inp d p pos =
     (if p < pos
      then scan_fwd inp
             (if charCodeAt inp p = Some 10
              then d\<lparr>line := line d + 1, column := 1\<rparr>
              else d\<lparr>column := column d + 1\<rparr>)
             (p + 1) pos
      else d)"
  by pat_completeness auto
termination
  by (relation "measure (\<lambda>(inp, d, p, pos). pos - p)") auto

definition p_computePosDetails ::
  "'src ParserState \<Rightarrow> nat \<Rightarrow> 'src failure + (posDetails \<times> 'src ParserState)" where
  "p_computePosDetails s pos =
     (case cache s pos of
        Some details \<Rightarrow> Inr (details, s)
      | None \<Rightarrow>
          (case scan_back (cache s) pos of
             None \<Rightarrow> Inl Diverges
           | Some (p, found) \<Rightarrow>
               let details = scan_fwd (input s) \<lparr>line = line found, column = column found\<rparr> p pos
               in Inr (details, s\<lparr>cache := (cache s)(pos \<mapsto> details)\<rparr>)))"

definition p_computeLocation ::
  "'src ParserState \<Rightarrow> nat \<Rightarrow> nat \<Rightarrow> 'src failure + ('src location \<times> 'src ParserState)" where
  "p_computeLocation s startPos endPos =
     (case p_computePosDetails s startPos of
        Inl err \<Rightarrow> Inl err
      | Inr (startPosDetails, s1) \<Rightarrow>
          (case p_computePosDetails s1 endPos of
             Inl err \<Rightarrow> Inl err
           | Inr (endPosDetails, s2) \<Rightarrow>
               Inr (\<lparr>loc_source = source s2,
                     loc_start = \<lparr>pos_offset = startPos, pos_line = line startPosDetails,
                                  pos_column = column startPosDetails\<rparr>,
                     loc_end = \<lparr>pos_offset = endPos, pos_line = line endPosDetails,
                                pos_column = column endPosDetails\<rparr>\<rparr>, s2)))"

subsection \<open>Building the error and parsing\<close>

text \<open>\<open>buildError\<close> reads the bottom frame \<open>this._expected[0]\<close>; on an empty stack that is
  \<open>undefined\<close> and \<open>expected.offset\<close> is a \<open>TypeError\<close>.\<close>

definition buildError ::
  "'src ParserState \<Rightarrow> 'src failure + ('src syntaxError \<times> 'src ParserState)" where
  "buildError s =
     (case expected s of
        [] \<Rightarrow> Inl TypeError
      | root # _ \<Rightarrow>
          let failPos = frame_offset root;
              found = (if failPos < length (input s) then Some (charAt (input s) failPos) else None)
          in case (if failPos < length (input s)
                   then p_computeLocation s failPos (failPos + 1)
                   else p_computeLocation s failPos failPos) of
               Inl err \<Rightarrow> Inl err
             | Inr (loc, s') \<Rightarrow> Inr (buildStructuredError (variants root) found loc, s'))"

text \<open>\<open>s.substring(a, b)\<close>: the bounds are swapped when \<open>a > b\<close>.\<close>

definition substring :: "jsstring \<Rightarrow> nat \<Rightarrow> nat \<Rightarrow> jsstring" where
  "substring s a b = take (max a b - min a b) (drop (min a b) s)"

text \<open>The methods \<open>text()\<close> and \<open>location()\<close>, and \<open>expected(description, location)\<close>,
  which always throws; its \<open>location\<close> is \<open>None\<close> when the argument is \<open>undefined\<close>.\<close>

definition state_text :: "'src ParserState \<Rightarrow> jsstring" where
  "state_text s = substring (input s) (mark s) (offset s)"

definition state_location ::
  "'src ParserState \<Rightarrow> 'src failure + ('src location \<times> 'src ParserState)" where
  "state_location s = p_computeLocation s (mark s) (offset s)"

definition state_expected :: "jsstring \<Rightarrow> 'src location option \<Rightarrow> 'src ParserState \<Rightarrow> 'src failure" where
  "state_expected description location s =
     (case location of
        Some loc \<Rightarrow> Thrown (buildStructuredError [User description] (Some (state_text s)) loc)
      | None \<Rightarrow>
          (case state_location s of
             Inl err \<Rightarrow> err
           | Inr (loc, s') \<Rightarrow>
               Thrown (buildStructuredError [User description] (Some (state_text s)) loc)))"

text \<open>\<open>throw this.buildError()\<close>.\<close>

definition throw_buildError :: "'src ParserState \<Rightarrow> 'src failure + 'r" where
  "throw_buildError s =
     (case buildError s of
        Inl err \<Rightarrow> Inl err
      | Inr (err, s') \<Rightarrow> Inl (Thrown err))"

text \<open>A rule function works on the state and returns a result or \<open>FAILED\<close>, unless it
  throws.\<close>

type_synonym ('src, 'r) ruleFn =
  "'src ParserState \<Rightarrow> 'src failure + ('r result \<times> 'src ParserState)"

definition parse :: "('src, 'r) ruleFn \<Rightarrow> 'src ParserState \<Rightarrow> 'src failure + 'r" where
  "parse ruleParseFunc s =
     (case ruleParseFunc (p_begin s) of
        Inl err \<Rightarrow> Inl err
      | Inr (res, s1) \<Rightarrow>
          (case res of
             Matched r \<Rightarrow>
               if offset s1 = length (input s1) then Inr r
               else if offset s1 < length (input s1)
                    then (case p_expect End s1 of
                            Inl err \<Rightarrow> Inl err
                          | Inr s2 \<Rightarrow> throw_buildError s2)
                    else throw_buildError s1
           | FAILED \<Rightarrow> throw_buildError s1))"

subsection \<open>Rule functions\<close>

text \<open>
  Rule functions as a generated parser writes them. A literal that does not match
  registers its expectation at the offset where it was tried. The rule for the grammar
  \<open>start = "a" "b" "c" / "a"\<close> tries the sequence and, when that fails, goes back to the
  offset where it began and tries the second alternative.
\<close>

definition match_or_expect :: "jsstring \<Rightarrow> ('src, jsstring) ruleFn" where
  "match_or_expect literal s =
     (case matchLiteral literal s of
        (Matched txt, s') \<Rightarrow> Inr (Matched txt, s')
      | (FAILED, s') \<Rightarrow>
          (case p_expect (Literal literal) s' of
             Inl err \<Rightarrow> Inl err
           | Inr s'' \<Rightarrow> Inr (FAILED, s'')))"

definition sequence_abc :: "('src, jsstring) ruleFn" where
  "sequence_abc s =
     (case match_or_expect (js ''a'') s of
        Inl err \<Rightarrow> Inl err
      | Inr (FAILED, s1) \<Rightarrow> Inr (FAILED, s1)
      | Inr (Matched a, s1) \<Rightarrow>
          (case match_or_expect (js ''b'') s1 of
             Inl err \<Rightarrow> Inl err
           | Inr (FAILED, s2) \<Rightarrow> Inr (FAILED, s2)
           | Inr (Matched b, s2) \<Rightarrow>
               (case match_or_expect (js ''c'') s2 of
                  Inl err \<Rightarrow> Inl err
                | Inr (FAILED, s3) \<Rightarrow> Inr (FAILED, s3)
                | Inr (Matched c, s3) \<Rightarrow> Inr (Matched (a @ b @ c), s3))))"

definition rule_abc_or_a :: "('src, jsstring) ruleFn" where
  "rule_abc_or_a s =
     (case sequence_abc s of
        Inl err \<Rightarrow> Inl err
      | Inr (Matched r, s1) \<Rightarrow> Inr (Matched r, s1)
      | Inr (FAILED, s1) \<Rightarrow> match_or_expect (js ''a'') (s1\<lparr>offset := offset s\<rparr>))"

subsection \<open>Reference definitions for the position properties\<close>

text \<open>The direct scan, with no cache, of the characters between the baseline offset and
  an offset: it starts at the baseline line and column; a newline increments the line
  and resets the column to 1, every other character increments the column. (No
  character lies between the baseline and an offset before it.)\<close>

definition count_char :: "posDetails \<Rightarrow> jschar \<Rightarrow> posDetails" where
  "count_char d ch =
     (if ch = 0x0A then \<lparr>line = line d + 1, column = 1\<rparr>
      else \<lparr>line = line d, column = column d + 1\<rparr>)"

definition linear_scan :: "jsstring \<Rightarrow> nat \<Rightarrow> nat \<Rightarrow> nat \<Rightarrow> nat \<Rightarrow> posDetails" where
  "linear_scan inp base ln col off =
     foldl count_char \<lparr>line = ln, column = col\<rparr> (take (off - base) (drop base inp))"

text \<open>Position queries in any order, each on the state the one before has left.\<close>

datatype query = QueryPosDetails nat | QueryLocation nat nat

datatype 'src answer = PosDetails posDetails | Location "'src location"

fun query_in_range :: "nat \<Rightarrow> query \<Rightarrow> bool" where
  "query_in_range n (QueryPosDetails pos) = (pos \<le> n)"
| "query_in_range n (QueryLocation startPos endPos) = (startPos \<le> n \<and> endPos \<le> n)"

fun run_query :: "query \<Rightarrow> 'src ParserState \<Rightarrow> 'src failure + ('src answer \<times> 'src ParserState)" where
  "run_query (QueryPosDetails pos) s =
     (case p_computePosDetails s pos of
        Inl err \<Rightarrow> Inl err
      | Inr (d, s') \<Rightarrow> Inr (PosDetails d, s'))"
| "run_query (QueryLocation startPos endPos) s =
     (case p_computeLocation s startPos endPos of
        Inl err \<Rightarrow> Inl err
      | Inr (loc, s') \<Rightarrow> Inr (Location loc, s'))"

fun run_queries :: "query list \<Rightarrow> 'src ParserState \<Rightarrow> 'src failure + ('src answer list \<times> 'src ParserState)" where
  "run_queries [] s = Inr ([], s)"
| "run_queries (q # qs) s =
     (case run_query q s of
        Inl err \<Rightarrow> Inl err
      | Inr (a, s') \<Rightarrow>
          (case run_queries qs s' of
             Inl err \<Rightarrow> Inl err
           | Inr (as, s'') \<Rightarrow> Inr (a # as, s'')))"

fun direct_answer :: "jsstring \<Rightarrow> 'src \<Rightarrow> nat \<Rightarrow> nat \<Rightarrow> nat \<Rightarrow> query \<Rightarrow> 'src answer" where
  "direct_answer inp src base ln col (QueryPosDetails pos) = PosDetails (linear_scan inp base ln col pos)"
| "direct_answer inp src base ln col (QueryLocation startPos endPos) =
     Location \<lparr>loc_source = src,
               loc_start = \<lparr>pos_offset = startPos,
                            pos_line = line (linear_scan inp base ln col startPos),
                            pos_column = column (linear_scan inp base ln col startPos)\<rparr>,
               loc_end = \<lparr>pos_offset = endPos,
                          pos_line = line (linear_scan inp base ln col endPos),
                          pos_column = column (linear_scan inp base ln col endPos)\<rparr>\<rparr>"

text \<open>The descriptions joined as the specification words it: one phrase unchanged, two
  with \<open>or\<close>, three or more with commas and \<open>, or\<close> before the last.\<close>

fun join_phrases :: "jsstring list \<Rightarrow> jsstring" where
  "join_phrases [] = []"
| "join_phrases [a] = a"
| "join_phrases [a, b] = a @ js '' or '' @ b"
| "join_phrases ps = join (js '', '') (butlast ps) @ js '', or '' @ last ps"

text \<open>What a primitive matcher owes its caller: on a match, the text returned is the
  text of the input at the old offset and the offset has advanced by its length; on
  \<open>FAILED\<close> the state is the one it was given.\<close>

definition matcher_contract :: "'src ParserState \<Rightarrow> jsstring result \<times> 'src ParserState \<Rightarrow> bool" where
  "matcher_contract s out =
     (case fst out of
        Matched txt \<Rightarrow>
          txt = substr (input s) (offset s) (length txt) \<and>
          snd out = s\<lparr>offset := offset s + length txt\<rparr>
      | FAILED \<Rightarrow> snd out = s)"

text \<open>The invariant of the position cache: index 0 holds the baseline line and column,
  and every entry is what the direct scan from index 0 gives at its index.\<close>

definition cache_ok :: "jsstring \<Rightarrow> nat \<Rightarrow> nat \<Rightarrow> 'src ParserState \<Rightarrow> bool" where
  "cache_ok inp ln col s =
     (input s = inp \<and> cache s 0 = Some \<lparr>line = ln, column = col\<rparr> \<and>
      (\<forall>k d. cache s k = Some d \<longrightarrow> k \<le> length inp \<and> d = linear_scan inp 0 ln col k))"

declare scan_fwd.simps [simp del]
declare dedup_loop.simps [simp del]

section \<open>Properties of the expectation stack\<close>

subsection \<open>Popping a frame\<close>

text \<open>
  Claim C1, as the code has it. For every frame popped by \<open>_end\<close> from a stack of at
  least two frames: the variants of the popped frame are appended to the new top frame
  exactly when the recorded offset of the popped frame is equal to the recorded offset
  of the new top frame; with \<open>invert\<close> each of them is wrapped in \<open>not\<close>, or unwrapped
  when it is a \<open>not\<close> already. When the two offsets differ (the popped frame behind or
  ahead), its variants are dropped and the new top frame is unchanged.
\<close>

theorem end_merges_on_equal_offset:
  assumes "expected s = stack @ [tf, popped]"
  shows "p_end invert s =
     Inr (s\<lparr>expected := stack @
        [if frame_offset popped = frame_offset tf
         then tf\<lparr>variants := variants tf @
                (if invert
                 then map (\<lambda>e. case e of Not inner \<Rightarrow> inner | _ \<Rightarrow> Not e) (variants popped)
                 else variants popped)\<rparr>
         else tf]\<rparr>)"
proof -
  have inv: "invert_expectation = (\<lambda>e. case e of Not inner \<Rightarrow> inner | _ \<Rightarrow> Not e)"
    by (rule ext) (simp split: expectation.splits)
  have l: "last (expected s) = popped" "butlast (expected s) = stack @ [tf]"
    using assms by (simp_all add: butlast_append)
  show ?thesis
    using assms unfolding p_end_def l by (simp add: Let_def inv butlast_append)
qed

text \<open>An instance: a frame popped at the offset of its parent, with inversion.\<close>

theorem end_merges_on_equal_offset_witness:
  "p_end True ((new_ParserState (js ''ab'') () 0 1 1)
       \<lparr>expected := [\<lparr>frame_offset = 0, variants = [Any]\<rparr>, \<lparr>frame_offset = 0, variants = [End, Not Any]\<rparr>]\<rparr>)
   = Inr ((new_ParserState (js ''ab'') () 0 1 1)\<lparr>expected := [\<lparr>frame_offset = 0, variants = [Any, Not End, Any]\<rparr>]\<rparr>)"
  using end_merges_on_equal_offset [of "(new_ParserState (js ''ab'') () 0 1 1)
       \<lparr>expected := [\<lparr>frame_offset = 0, variants = [Any]\<rparr>, \<lparr>frame_offset = 0, variants = [End, Not Any]\<rparr>]\<rparr>"
       "[]" "\<lparr>frame_offset = 0, variants = [Any]\<rparr>" "\<lparr>frame_offset = 0, variants = [End, Not Any]\<rparr>" True]
  by simp

text \<open>
  The popped frame is not behind the new top frame (offset 1 against 0), and yet its
  variants are dropped: merging needs equal offsets, not an offset that is at least
  the parent's.
\<close>

theorem end_ahead_discarded_counterexample:
  "p_end False ((new_ParserState (js ''ab'') () 0 1 1)
       \<lparr>expected := [\<lparr>frame_offset = 0, variants = []\<rparr>, \<lparr>frame_offset = 1, variants = [End]\<rparr>]\<rparr>)
   = Inr ((new_ParserState (js ''ab'') () 0 1 1)\<lparr>expected := [\<lparr>frame_offset = 0, variants = []\<rparr>]\<rparr>)"
  by (simp add: p_end_def new_ParserState_def)

subsection \<open>Registering expectations\<close>

lemma p_expect_step:
  assumes "expected s = stack @ [tf]"
  shows "p_expect e (s\<lparr>offset := off\<rparr>) =
     Inr (s\<lparr>offset := off, expected := stack @
        [if off < frame_offset tf then tf
         else if off > frame_offset tf then \<lparr>frame_offset = off, variants = [e]\<rparr>
         else tf\<lparr>variants := variants tf @ [e]\<rparr>]\<rparr>)"
  using assms by (simp add: p_expect_def Let_def)

text \<open>
  Claim C2, as the code has it. For every run of \<open>_expect\<close> calls with arbitrary
  changes of the current offset in between and the same top frame throughout: the
  recorded offset of the frame afterwards is the maximum of the offset it had recorded
  before and the offsets of the calls; its variants are the ones it had before, kept
  only when its earlier offset is that maximum, followed by exactly the expectations
  registered while the current offset was that maximum, in the order of registration.
  An expectation registered at a lower offset is not added.
\<close>

theorem expect_calls_furthest_offset:
  assumes "expected s = stack @ [tf]"
  shows "expect_calls calls s =
     Inr (s\<lparr>offset := (if calls = [] then offset s else fst (last calls)),
            expected := stack @
              [\<lparr>frame_offset = Max (set (frame_offset tf # map fst calls)),
                variants =
                  (if Max (set (frame_offset tf # map fst calls)) = frame_offset tf
                   then variants tf else [])
                  @ map snd (filter (\<lambda>c. fst c = Max (set (frame_offset tf # map fst calls))) calls)\<rparr>]\<rparr>)"
  using assms
proof (induction calls arbitrary: s tf)
  case Nil
  then show ?case by simp
next
  case (Cons c calls)
  obtain off e where c: "c = (off, e)" by (cases c)
  define tf1 where "tf1 = (if off < frame_offset tf then tf
         else if off > frame_offset tf then \<lparr>frame_offset = off, variants = [e]\<rparr>
         else tf\<lparr>variants := variants tf @ [e]\<rparr>)"
  define s1 where "s1 = s\<lparr>offset := off, expected := stack @ [tf1]\<rparr>"
  define m where "m = Max (set (frame_offset tf # map fst (c # calls)))"
  have step: "p_expect e (s\<lparr>offset := off\<rparr>) = Inr s1"
    unfolding s1_def tf1_def by (rule p_expect_step [OF Cons.prems])
  have s1e: "expected s1 = stack @ [tf1]" by (simp add: s1_def)
  have f1: "frame_offset tf1 = max (frame_offset tf) off"
    by (simp add: tf1_def max_def)
  have M: "Max (set (frame_offset tf1 # map fst calls)) = m"
  proof -
    have "Max (set (frame_offset tf1 # map fst calls))
        = Max (insert (max (frame_offset tf) off) (set (map fst calls)))" by (simp add: f1)
    also have "\<dots> = Max (insert (frame_offset tf) (insert off (set (map fst calls))))"
      by (cases "set (map fst calls) = {}") (simp_all add: max.assoc)
    finally show ?thesis by (simp add: c m_def)
  qed
  have Mge: "frame_offset tf \<le> m" "off \<le> m"
    unfolding m_def by (rule Max_ge; simp add: c)+
  have v: "(if m = frame_offset tf1 then variants tf1 else []) @ map snd (filter (\<lambda>c. fst c = m) calls)
        = (if m = frame_offset tf then variants tf else []) @ map snd (filter (\<lambda>c. fst c = m) (c # calls))"
    using Mge by (auto simp: tf1_def c)
  have "expect_calls (c # calls) s = expect_calls calls s1"
    using step by (simp add: c)
  also have "\<dots> = Inr (s1\<lparr>offset := (if calls = [] then offset s1 else fst (last calls)),
            expected := stack @
              [\<lparr>frame_offset = m,
                variants = (if m = frame_offset tf then variants tf else [])
                  @ map snd (filter (\<lambda>c. fst c = m) (c # calls))\<rparr>]\<rparr>)"
    using Cons.IH [OF s1e] unfolding M v .
  also have "\<dots> = Inr (s\<lparr>offset := (if c # calls = [] then offset s else fst (last (c # calls))),
            expected := stack @
              [\<lparr>frame_offset = m,
                variants = (if m = frame_offset tf then variants tf else [])
                  @ map snd (filter (\<lambda>c. fst c = m) (c # calls))\<rparr>]\<rparr>)"
    by (simp add: s1_def c)
  finally show ?case unfolding m_def .
qed

text \<open>An instance: four calls on a fresh frame, two of them at the furthest offset.\<close>

theorem expect_calls_furthest_offset_witness:
  "expected (p_begin (new_ParserState (js ''abcdef'') () 0 1 1)) = [] @ [\<lparr>frame_offset = 0, variants = []\<rparr>]
   \<and> expect_calls [(1, Any), (3, End), (2, Any), (3, Rule (js ''r''))]
        (p_begin (new_ParserState (js ''abcdef'') () 0 1 1))
      = Inr ((p_begin (new_ParserState (js ''abcdef'') () 0 1 1))
               \<lparr>offset := 3, expected := [\<lparr>frame_offset = 3, variants = [End, Rule (js ''r'')]\<rparr>]\<rparr>)"
proof -
  have h: "expected (p_begin (new_ParserState (js ''abcdef'') () 0 1 1)) = [] @ [\<lparr>frame_offset = 0, variants = []\<rparr>]"
    by (simp add: p_begin_def new_ParserState_def)
  show ?thesis
    using h expect_calls_furthest_offset [OF h, of "[(1, Any), (3, End), (2, Any), (3, Rule (js ''r''))]"]
    by simp
qed

text \<open>
  A frame begun at offset 5 and one call at offset 3: the maximum offset over the calls
  is 3, but the call is ignored, the frame keeps offset 5 and has no variants.
\<close>

theorem expect_calls_below_frame_counterexample:
  "expect_calls [(3, End)] (p_begin (new_ParserState (js ''abcdef'') () 5 1 1))
     = Inr ((p_begin (new_ParserState (js ''abcdef'') () 5 1 1))\<lparr>offset := 3\<rparr>)
   \<and> expected ((p_begin (new_ParserState (js ''abcdef'') () 5 1 1))\<lparr>offset := 3\<rparr>)
       = [\<lparr>frame_offset = 5, variants = []\<rparr>]"
  by (simp add: p_expect_def p_begin_def new_ParserState_def)

section \<open>Properties of the position cache\<close>

lemma scan_back_finds:
  "c 0 \<noteq> None \<Longrightarrow> 0 < pos \<Longrightarrow> \<exists>p d. scan_back c pos = Some (p, d) \<and> p < pos \<and> c p = Some d"
proof (induction pos)
  case 0
  then show ?case by simp
next
  case (Suc pos)
  show ?case
  proof (cases "c pos")
    case (Some d)
    then show ?thesis by simp
  next
    case None
    with Suc.prems have "0 < pos" by (cases pos) auto
    from Suc.IH [OF Suc.prems(1) this] None show ?thesis by auto
  qed
qed

lemma linear_scan_0: "linear_scan inp 0 ln col 0 = \<lparr>line = ln, column = col\<rparr>"
  by (simp add: linear_scan_def)

lemma linear_scan_Suc:
  "p < length inp \<Longrightarrow> linear_scan inp 0 ln col (Suc p) = count_char (linear_scan inp 0 ln col p) (inp ! p)"
  by (simp add: linear_scan_def take_Suc_conv_app_nth)

lemma charCodeAt_newline: "p < length inp \<Longrightarrow> (charCodeAt inp p = Some 10) = (inp ! p = 0x0A)"
  by (simp add: charCodeAt_def word_unat_eq_iff)

lemma scan_fwd_linear_scan:
  "d = linear_scan inp 0 ln col p \<Longrightarrow> p \<le> pos \<Longrightarrow> pos \<le> length inp \<Longrightarrow>
   scan_fwd inp d p pos = linear_scan inp 0 ln col pos"
proof (induction inp d p pos rule: scan_fwd.induct)
  case (1 inp d p pos)
  show ?case
  proof (cases "p < pos")
    case True
    then have pl: "p < length inp" using "1.prems" by simp
    have d': "(if charCodeAt inp p = Some 10 then d\<lparr>line := line d + 1, column := 1\<rparr>
               else d\<lparr>column := column d + 1\<rparr>) = linear_scan inp 0 ln col (p + 1)"
      using "1.prems"(1) pl by (simp add: linear_scan_Suc charCodeAt_newline count_char_def)
    have "scan_fwd inp d p pos = scan_fwd inp (if charCodeAt inp p = Some 10 then d\<lparr>line := line d + 1, column := 1\<rparr>
               else d\<lparr>column := column d + 1\<rparr>) (p + 1) pos"
      using True by (subst scan_fwd.simps) simp
    also have "\<dots> = linear_scan inp 0 ln col pos"
      using "1.IH" [OF True d'] True "1.prems" by simp
    finally show ?thesis .
  next
    case False
    then have "p = pos" using "1.prems" by simp
    then show ?thesis using "1.prems"(1) by (subst scan_fwd.simps) simp
  qed
qed

lemma computePosDetails_ok:
  assumes "cache_ok inp ln col s" and "pos \<le> length inp"
  shows "\<exists>s'. p_computePosDetails s pos = Inr (linear_scan inp 0 ln col pos, s')
            \<and> cache_ok inp ln col s' \<and> source s' = source s \<and> expected s' = expected s"
proof (cases "cache s pos")
  case (Some d)
  then have "d = linear_scan inp 0 ln col pos" using assms(1) by (simp add: cache_ok_def)
  then show ?thesis using Some assms(1) by (simp add: p_computePosDetails_def)
next
  case None
  have c0: "cache s 0 \<noteq> None" using assms(1) by (simp add: cache_ok_def)
  have "0 < pos" using None c0 by (cases pos) auto
  from scan_back_finds [of "cache s" pos, OF c0 this] obtain p d
    where sb: "scan_back (cache s) pos = Some (p, d)" and p: "p < pos" and cp: "cache s p = Some d"
    by blast
  have d: "d = linear_scan inp 0 ln col p" using cp assms(1) by (simp add: cache_ok_def)
  have eta: "\<lparr>line = line d, column = column d\<rparr> = d" by simp
  have fw: "scan_fwd (input s) \<lparr>line = line d, column = column d\<rparr> p pos = linear_scan inp 0 ln col pos"
    unfolding eta using scan_fwd_linear_scan [OF d, of pos] p assms by (simp add: cache_ok_def)
  define s' where "s' = s\<lparr>cache := (cache s)(pos \<mapsto> linear_scan inp 0 ln col pos)\<rparr>"
  have run: "p_computePosDetails s pos = Inr (linear_scan inp 0 ln col pos, s')"
    using None sb fw by (simp add: p_computePosDetails_def s'_def Let_def)
  have "cache_ok inp ln col s'"
    unfolding cache_ok_def
  proof (intro conjI allI impI)
    show "input s' = inp" using assms(1) by (simp add: s'_def cache_ok_def)
    show "cache s' 0 = Some \<lparr>line = ln, column = col\<rparr>"
      using assms(1) \<open>0 < pos\<close> by (simp add: s'_def cache_ok_def)
    fix k d assume kd: "cache s' k = Some d"
    show "k \<le> length inp"
      using kd assms by (cases "k = pos") (simp_all add: s'_def cache_ok_def)
    show "d = linear_scan inp 0 ln col k"
      using kd assms(1) by (cases "k = pos") (simp_all add: s'_def cache_ok_def)
  qed
  then show ?thesis using run by (simp add: s'_def)
qed

lemma computeLocation_ok:
  assumes "cache_ok inp ln col s" and "startPos \<le> length inp" and "endPos \<le> length inp"
  shows "\<exists>s'. p_computeLocation s startPos endPos =
            Inr (\<lparr>loc_source = source s,
                   loc_start = \<lparr>pos_offset = startPos,
                                pos_line = line (linear_scan inp 0 ln col startPos),
                                pos_column = column (linear_scan inp 0 ln col startPos)\<rparr>,
                   loc_end = \<lparr>pos_offset = endPos,
                              pos_line = line (linear_scan inp 0 ln col endPos),
                              pos_column = column (linear_scan inp 0 ln col endPos)\<rparr>\<rparr>, s')
            \<and> cache_ok inp ln col s' \<and> source s' = source s \<and> expected s' = expected s"
proof -
  from computePosDetails_ok [OF assms(1,2)] obtain s1
    where 1: "p_computePosDetails s startPos = Inr (linear_scan inp 0 ln col startPos, s1)"
      and ok1: "cache_ok inp ln col s1" and src1: "source s1 = source s" "expected s1 = expected s"
    by blast
  from computePosDetails_ok [OF ok1 assms(3)] obtain s2
    where 2: "p_computePosDetails s1 endPos = Inr (linear_scan inp 0 ln col endPos, s2)"
      and ok2: "cache_ok inp ln col s2" and src2: "source s2 = source s1" "expected s2 = expected s1"
    by blast
  show ?thesis
    using 1 2 ok2 src1 src2 by (simp add: p_computeLocation_def)
qed

lemma run_queries_ok:
  assumes "cache_ok inp ln col s" and "list_all (query_in_range (length inp)) qs"
  shows "\<exists>s'. run_queries qs s = Inr (map (direct_answer inp (source s) 0 ln col) qs, s')"
  using assms
proof (induction qs arbitrary: s)
  case Nil
  then show ?case by simp
next
  case (Cons q qs)
  have "\<exists>s1. run_query q s = Inr (direct_answer inp (source s) 0 ln col q, s1)
           \<and> cache_ok inp ln col s1 \<and> source s1 = source s"
  proof (cases q)
    case (QueryPosDetails pos)
    then have "pos \<le> length inp" using Cons.prems(2) by simp
    from computePosDetails_ok [OF Cons.prems(1) this] show ?thesis
      using QueryPosDetails by auto
  next
    case (QueryLocation a b)
    then have "a \<le> length inp" "b \<le> length inp" using Cons.prems(2) by simp_all
    from computeLocation_ok [OF Cons.prems(1) this] show ?thesis
      using QueryLocation by auto
  qed
  then obtain s1 where 1: "run_query q s = Inr (direct_answer inp (source s) 0 ln col q, s1)"
    and ok1: "cache_ok inp ln col s1" and src: "source s1 = source s" by blast
  have "list_all (query_in_range (length inp)) qs" using Cons.prems(2) by simp
  from Cons.IH [OF ok1 this] obtain s2
    where "run_queries qs s1 = Inr (map (direct_answer inp (source s1) 0 ln col) qs, s2)" by blast
  then show ?case using 1 src by simp
qed

lemma new_cache_ok: "cache_ok inp ln col (new_ParserState inp src off ln col)"
  by (simp add: cache_ok_def new_ParserState_def linear_scan_0)

lemma run_queries_new:
  assumes "list_all (query_in_range (length inp)) qs"
  shows "\<exists>s'. run_queries qs (new_ParserState inp src off ln col)
             = Inr (map (direct_answer inp src 0 ln col) qs, s')"
  using run_queries_ok [OF new_cache_ok assms, of src off ln col]
  by (simp add: new_ParserState_def)

text \<open>
  Claim C4. For every input, every baseline (offset, line, column) and every run of
  position queries (\<open>_computePosDetails\<close> and \<open>_computeLocation\<close>, in any order, any
  number of times) at offsets between 0 and the length of the input, each query
  returns, and the cache never changes the answer: it is the answer of a direct scan
  without a cache. That scan, however, starts at index 0 of the input with the baseline
  line and column, whatever the baseline offset is. So the answers are those of the
  direct scan from the baseline when the baseline offset is 0, and they are not when it
  is not: with the input \<open>ab\<close> and the baseline (offset 1, line 1, column 1), the scan
  from the baseline gives line 1, column 1 at offset 1 and column 2 at offset 2, and
  the queries answer column 2 and column 3.
\<close>

theorem position_queries_scan_from_index_0:
  assumes "list_all (query_in_range (length inp)) qs"
  shows "(\<exists>s'. run_queries qs (new_ParserState inp src off ln col)
             = Inr (map (direct_answer inp src 0 ln col) qs, s'))
       \<and> (\<exists>s'. run_queries [QueryPosDetails 1, QueryLocation 1 2, QueryPosDetails 1]
                   (new_ParserState (js ''ab'') () 1 1 1)
             = Inr ([PosDetails \<lparr>line = 1, column = 2\<rparr>,
                     Location \<lparr>loc_source = (),
                               loc_start = \<lparr>pos_offset = 1, pos_line = 1, pos_column = 2\<rparr>,
                               loc_end = \<lparr>pos_offset = 2, pos_line = 1, pos_column = 3\<rparr>\<rparr>,
                     PosDetails \<lparr>line = 1, column = 2\<rparr>], s'))
       \<and> map (direct_answer (js ''ab'') () 1 1 1)
             [QueryPosDetails 1, QueryLocation 1 2, QueryPosDetails 1]
           = [PosDetails \<lparr>line = 1, column = 1\<rparr>,
              Location \<lparr>loc_source = (),
                        loc_start = \<lparr>pos_offset = 1, pos_line = 1, pos_column = 1\<rparr>,
                        loc_end = \<lparr>pos_offset = 2, pos_line = 1, pos_column = 2\<rparr>\<rparr>,
              PosDetails \<lparr>line = 1, column = 1\<rparr>]"
proof (intro conjI)
  show "\<exists>s'. run_queries qs (new_ParserState inp src off ln col)
             = Inr (map (direct_answer inp src 0 ln col) qs, s')"
    by (rule run_queries_new [OF assms])
  have h: "list_all (query_in_range (length (js ''ab'')))
             [QueryPosDetails 1, QueryLocation 1 2, QueryPosDetails 1]"
    by (simp add: js_def)
  have e: "map (direct_answer (js ''ab'') () 0 1 1)
             [QueryPosDetails 1, QueryLocation 1 2, QueryPosDetails 1]
         = [PosDetails \<lparr>line = 1, column = 2\<rparr>,
            Location \<lparr>loc_source = (),
                      loc_start = \<lparr>pos_offset = 1, pos_line = 1, pos_column = 2\<rparr>,
                      loc_end = \<lparr>pos_offset = 2, pos_line = 1, pos_column = 3\<rparr>\<rparr>,
            PosDetails \<lparr>line = 1, column = 2\<rparr>]"
    by (simp add: js_def linear_scan_def count_char_def)
  show "\<exists>s'. run_queries [QueryPosDetails 1, QueryLocation 1 2, QueryPosDetails 1]
                   (new_ParserState (js ''ab'') () 1 1 1)
             = Inr ([PosDetails \<lparr>line = 1, column = 2\<rparr>,
                     Location \<lparr>loc_source = (),
                               loc_start = \<lparr>pos_offset = 1, pos_line = 1, pos_column = 2\<rparr>,
                               loc_end = \<lparr>pos_offset = 2, pos_line = 1, pos_column = 3\<rparr>\<rparr>,
                     PosDetails \<lparr>line = 1, column = 2\<rparr>], s')"
    using run_queries_new [OF h, of "()" 1 1 1] unfolding e .
  show "map (direct_answer (js ''ab'') () 1 1 1)
             [QueryPosDetails 1, QueryLocation 1 2, QueryPosDetails 1]
           = [PosDetails \<lparr>line = 1, column = 1\<rparr>,
              Location \<lparr>loc_source = (),
                        loc_start = \<lparr>pos_offset = 1, pos_line = 1, pos_column = 1\<rparr>,
                        loc_end = \<lparr>pos_offset = 2, pos_line = 1, pos_column = 2\<rparr>\<rparr>,
              PosDetails \<lparr>line = 1, column = 1\<rparr>]"
    by (simp add: js_def linear_scan_def count_char_def)
qed

text \<open>An instance at baseline offset 0: five queries on a two-line input, one offset
  asked twice.\<close>

theorem position_queries_scan_from_index_0_witness:
  "list_all (query_in_range (length (js ''a\<newline>bc'')))
      [QueryPosDetails 3, QueryLocation 1 4, QueryPosDetails 3, QueryPosDetails 0, QueryPosDetails 2]
   \<and> (\<exists>s'. run_queries [QueryPosDetails 3, QueryLocation 1 4, QueryPosDetails 3, QueryPosDetails 0, QueryPosDetails 2]
              (new_ParserState (js ''a\<newline>bc'') () 0 1 1)
        = Inr ([PosDetails \<lparr>line = 2, column = 2\<rparr>,
                Location \<lparr>loc_source = (),
                          loc_start = \<lparr>pos_offset = 1, pos_line = 1, pos_column = 2\<rparr>,
                          loc_end = \<lparr>pos_offset = 4, pos_line = 2, pos_column = 3\<rparr>\<rparr>,
                PosDetails \<lparr>line = 2, column = 2\<rparr>,
                PosDetails \<lparr>line = 1, column = 1\<rparr>,
                PosDetails \<lparr>line = 2, column = 1\<rparr>], s'))"
proof -
  have h: "list_all (query_in_range (length (js ''a\<newline>bc'')))
      [QueryPosDetails 3, QueryLocation 1 4, QueryPosDetails 3, QueryPosDetails 0, QueryPosDetails 2]"
    by (simp add: js_def)
  have e: "map (direct_answer (js ''a\<newline>bc'') () 0 1 1)
             [QueryPosDetails 3, QueryLocation 1 4, QueryPosDetails 3, QueryPosDetails 0, QueryPosDetails 2]
         = [PosDetails \<lparr>line = 2, column = 2\<rparr>,
                Location \<lparr>loc_source = (),
                          loc_start = \<lparr>pos_offset = 1, pos_line = 1, pos_column = 2\<rparr>,
                          loc_end = \<lparr>pos_offset = 4, pos_line = 2, pos_column = 3\<rparr>\<rparr>,
                PosDetails \<lparr>line = 2, column = 2\<rparr>,
                PosDetails \<lparr>line = 1, column = 1\<rparr>,
                PosDetails \<lparr>line = 2, column = 1\<rparr>]"
    by (simp add: js_def linear_scan_def count_char_def)
  show ?thesis
    using h position_queries_scan_from_index_0 [OF h, of "()" 0 1 1, THEN conjunct1]
    unfolding e by (rule conjI)
qed

text \<open>
  Claim C5 at a baseline offset that is not zero. The constructor puts the baseline line
  and column at index 0 of the cache whatever the baseline offset is: with the input
  \<open>ab\<close> and the baseline (offset 1, line 1, column 1), the cache has no entry at
  offset 1, and \<open>_computePosDetails(1)\<close> scans the character before the baseline and
  answers line 1, column 2.
\<close>

theorem baseline_offset_not_seeded:
  "cache (new_ParserState (js ''ab'') () 1 1 1) 1 = None
   \<and> (\<exists>s'. p_computePosDetails (new_ParserState (js ''ab'') () 1 1 1) 1
       = Inr (\<lparr>line = 1, column = 2\<rparr>, s'))"
  by (simp add: new_ParserState_def p_computePosDetails_def js_def charCodeAt_def Let_def scan_fwd.simps)


section \<open>Properties of the primitive matchers\<close>

text \<open>
  Claim C6, as the code has it. For every literal pattern that is in lower case already
  (the pattern is its own lower-case form) and every input and offset:
  \<open>matchLiteralIC\<close> succeeds exactly when the next \<open>literal.length\<close> characters of the
  input (fewer at the end of the input) match the pattern without regard to case, which
  is when their lower-case form is the pattern; on success it advances the offset by
  \<open>literal.length\<close> and returns the substring of the input as it is written there,
  not the pattern.
\<close>

theorem matchLiteralIC_lowercase_pattern:
  assumes "toLowerCase literal = literal"
  shows "matchLiteralIC toLowerCase literal s =
     (if toLowerCase (substr (input s) (offset s) (length literal)) = toLowerCase literal
      then (Matched (substr (input s) (offset s) (length literal)),
            s\<lparr>offset := offset s + length literal\<rparr>)
      else (FAILED, s))"
  using assms by (simp add: matchLiteralIC_def Let_def)

text \<open>An instance: the pattern \<open>ab\<close> against the input \<open>xAb\<close> at offset 1.\<close>

theorem matchLiteralIC_lowercase_pattern_witness:
  "toLowerCase_basic (js ''ab'') = js ''ab''
   \<and> matchLiteralIC toLowerCase_basic (js ''ab'') ((new_ParserState (js ''xAb'') () 0 1 1)\<lparr>offset := 1\<rparr>)
     = (Matched (js ''Ab''), (new_ParserState (js ''xAb'') () 0 1 1)\<lparr>offset := 3\<rparr>)"
proof -
  have h: "toLowerCase_basic (js ''ab'') = js ''ab''"
    by (simp add: toLowerCase_basic_def toLowerCase_unit_def js_def)
  show ?thesis
    using h matchLiteralIC_lowercase_pattern [of toLowerCase_basic, OF h, of "(new_ParserState (js ''xAb'') () 0 1 1)\<lparr>offset := 1\<rparr>"]
    by (simp add: toLowerCase_basic_def toLowerCase_unit_def js_def substr_def new_ParserState_def)
qed

text \<open>
  The pattern \<open>A\<close> and the input \<open>a\<close> match without regard to case, and the matcher
  fails: only the input is lower-cased, the pattern is compared as it is.
\<close>

theorem matchLiteralIC_uppercase_pattern_counterexample:
  "toLowerCase_basic (substr (input (new_ParserState (js ''a'') () 0 1 1))
                             (offset (new_ParserState (js ''a'') () 0 1 1)) (length (js ''A'')))
     = toLowerCase_basic (js ''A'')
   \<and> matchLiteralIC toLowerCase_basic (js ''A'') (new_ParserState (js ''a'') () 0 1 1)
     = (FAILED, new_ParserState (js ''a'') () 0 1 1)"
  by (simp add: matchLiteralIC_def toLowerCase_basic_def toLowerCase_unit_def js_def substr_def new_ParserState_def)

text \<open>
  Claim C7, as the code has it. For every state, each primitive matcher, under these
  conditions on its arguments and on the input (\<open>matchClass\<close> with a regular
  expression that rejects the empty string; \<open>matchChar\<close> with a string of one character
  and the code of that character; for \<open>matchLiteralIC\<close>, an input whose text at the
  offset keeps its length when lower-cased, which leaves out the texts that
  lower-casing lengthens), either advances the current offset by exactly the length of
  the matched text
  and returns that text, or returns \<open>FAILED\<close> and leaves the whole state (offset, mark,
  expectation stack, position cache) unchanged. At or past the end of the input
  \<open>matchAny\<close>, \<open>matchClass\<close> and \<open>matchChar\<close> return \<open>FAILED\<close>, and so do
  \<open>matchLiteral\<close> and \<open>matchLiteralIC\<close> for a literal that is not empty.
\<close>

theorem matchers_advance_or_fail:
  assumes re: "\<not> regexp_test []"
      and ch: "char = [c]" "charCode = unat c"
      and lc: "length (toLowerCase (substr (input s) (offset s) (length literal)))
               = length (substr (input s) (offset s) (length literal))"
  shows "matcher_contract s (matchAny s)
       \<and> matcher_contract s (matchClass regexp_test s)
       \<and> matcher_contract s (matchChar char charCode s)
       \<and> matcher_contract s (matchLiteral literal s)
       \<and> matcher_contract s (matchLiteralIC toLowerCase literal s)
       \<and> (length (input s) \<le> offset s \<longrightarrow>
            fst (matchAny s) = FAILED
          \<and> fst (matchClass regexp_test s) = FAILED
          \<and> fst (matchChar char charCode s) = FAILED
          \<and> (literal \<noteq> [] \<longrightarrow> fst (matchLiteral literal s) = FAILED
                              \<and> fst (matchLiteralIC toLowerCase literal s) = FAILED))"
proof (intro conjI impI)
  show "matcher_contract s (matchAny s)"
    by (simp add: matcher_contract_def matchAny_def charAt_def substr_def take_Suc_conv_app_nth
                  take_Suc hd_drop_conv_nth Let_def)
  show "matcher_contract s (matchClass regexp_test s)"
    using re
    by (auto simp: matcher_contract_def matchClass_def charAt_def substr_def take_Suc hd_drop_conv_nth Let_def)
  show "matcher_contract s (matchChar char charCode s)"
    using ch
    by (auto simp: matcher_contract_def matchChar_def charCodeAt_def substr_def take_Suc
                   hd_drop_conv_nth word_unat_eq_iff split: if_splits)
  show "matcher_contract s (matchLiteral literal s)"
    by (auto simp: matcher_contract_def matchLiteral_def Let_def)
  show "matcher_contract s (matchLiteralIC toLowerCase literal s)"
  proof (cases "toLowerCase (substr (input s) (offset s) (length literal)) = literal")
    case True
    then have "length (substr (input s) (offset s) (length literal)) = length literal"
      using lc by simp
    then show ?thesis using True
      by (simp add: matcher_contract_def matchLiteralIC_def Let_def substr_def)
  next
    case False
    then show ?thesis by (simp add: matcher_contract_def matchLiteralIC_def Let_def)
  qed
next
  assume e: "length (input s) \<le> offset s"
  show "fst (matchAny s) = FAILED" using e by (simp add: matchAny_def Let_def)
  show "fst (matchClass regexp_test s) = FAILED"
    using e re by (simp add: matchClass_def charAt_def Let_def)
  show "fst (matchChar char charCode s) = FAILED"
    using e by (simp add: matchChar_def charCodeAt_def)
next
  assume e: "length (input s) \<le> offset s" and ne: "literal \<noteq> []"
  show "fst (matchLiteral literal s) = FAILED"
    using e ne by (auto simp: matchLiteral_def substr_def Let_def)
  have "toLowerCase (substr (input s) (offset s) (length literal)) \<noteq> literal"
    using e ne lc by (auto simp: substr_def)
  then show "fst (matchLiteralIC toLowerCase literal s) = FAILED"
    by (simp add: matchLiteralIC_def Let_def)
qed

text \<open>An instance: the input \<open>aB\<close>, at offset 0 and at its end.\<close>

theorem matchers_advance_or_fail_witness:
  "\<not> regexp_class_a []
   \<and> length (toLowerCase_basic (substr (input (new_ParserState (js ''aB'') () 0 1 1)) 0 (length (js ''ab''))))
       = length (substr (input (new_ParserState (js ''aB'') () 0 1 1)) 0 (length (js ''ab'')))
   \<and> length (input ((new_ParserState (js ''aB'') () 0 1 1)\<lparr>offset := 2\<rparr>))
       \<le> offset ((new_ParserState (js ''aB'') () 0 1 1)\<lparr>offset := 2\<rparr>)
   \<and> js ''ab'' \<noteq> []
   \<and> matcher_contract (new_ParserState (js ''aB'') () 0 1 1)
         (matchLiteralIC toLowerCase_basic (js ''ab'') (new_ParserState (js ''aB'') () 0 1 1))
   \<and> matchLiteralIC toLowerCase_basic (js ''ab'') (new_ParserState (js ''aB'') () 0 1 1)
       = (Matched (js ''aB''), (new_ParserState (js ''aB'') () 0 1 1)\<lparr>offset := 2\<rparr>)
   \<and> matchChar (js ''a'') 97 (new_ParserState (js ''aB'') () 0 1 1)
       = (Matched (js ''a''), (new_ParserState (js ''aB'') () 0 1 1)\<lparr>offset := 1\<rparr>)
   \<and> fst (matchAny ((new_ParserState (js ''aB'') () 0 1 1)\<lparr>offset := 2\<rparr>)) = FAILED
   \<and> fst (matchClass regexp_class_a ((new_ParserState (js ''aB'') () 0 1 1)\<lparr>offset := 2\<rparr>)) = FAILED
   \<and> fst (matchChar (js ''a'') 97 ((new_ParserState (js ''aB'') () 0 1 1)\<lparr>offset := 2\<rparr>)) = FAILED
   \<and> fst (matchLiteral (js ''ab'') ((new_ParserState (js ''aB'') () 0 1 1)\<lparr>offset := 2\<rparr>)) = FAILED
   \<and> fst (matchLiteralIC toLowerCase_basic (js ''ab'') ((new_ParserState (js ''aB'') () 0 1 1)\<lparr>offset := 2\<rparr>)) = FAILED"
proof -
  let ?s = "new_ParserState (js ''aB'') () 0 1 (1::nat)"
  let ?e = "?s\<lparr>offset := 2\<rparr>"
  have re: "\<not> regexp_class_a []" by (simp add: regexp_class_a_def js_def)
  have ch: "js ''a'' = [0x61]" "(97::nat) = unat (0x61 :: jschar)" by (simp_all add: js_def)
  have lc: "length (toLowerCase_basic (substr (input ?s) (offset ?s) (length (js ''ab''))))
          = length (substr (input ?s) (offset ?s) (length (js ''ab'')))"
    by (simp add: toLowerCase_basic_def toLowerCase_unit_def substr_def js_def new_ParserState_def)
  have lce: "length (toLowerCase_basic (substr (input ?e) (offset ?e) (length (js ''ab''))))
          = length (substr (input ?e) (offset ?e) (length (js ''ab'')))"
    by (simp add: toLowerCase_basic_def toLowerCase_unit_def substr_def js_def new_ParserState_def)
  have ee: "length (input ?e) \<le> offset ?e" by (simp add: js_def new_ParserState_def)
  have ne: "js ''ab'' \<noteq> []" by (simp add: js_def)
  have o: "offset ?s = 0" by (simp add: new_ParserState_def)
  note mid = matchers_advance_or_fail [where regexp_test = regexp_class_a and char = "js ''a''" and c = "0x61"
      and charCode = 97 and toLowerCase = toLowerCase_basic and s = ?s and literal = "js ''ab''",
      OF re ch lc]
  note fin = matchers_advance_or_fail [where regexp_test = regexp_class_a and char = "js ''a''" and c = "0x61"
      and charCode = 97 and toLowerCase = toLowerCase_basic and s = ?e and literal = "js ''ab''",
      OF re ch lce]
  have m1: "matchLiteralIC toLowerCase_basic (js ''ab'') ?s = (Matched (js ''aB''), ?s\<lparr>offset := 2\<rparr>)"
    by (simp add: matchLiteralIC_def toLowerCase_basic_def toLowerCase_unit_def substr_def js_def new_ParserState_def Let_def)
  have m2: "matchChar (js ''a'') 97 ?s = (Matched (js ''a''), ?s\<lparr>offset := 1\<rparr>)"
    by (simp add: matchChar_def charCodeAt_def js_def new_ParserState_def)
  show ?thesis
    using re lc ee ne mid fin m1 m2 unfolding o by blast
qed

text \<open>
  Where the claim fails for arbitrary arguments: the empty literal matches at the end of
  the input; a regular expression that accepts the empty string makes \<open>matchClass\<close>
  advance there with an empty text; \<open>matchChar\<close> returns the string it was given,
  whatever the code matched; and when lower-casing lengthens the text (U+0130),
  \<open>matchLiteralIC\<close> advances by more than the text it returns.
\<close>

theorem matchers_arguments_counterexample:
  "matchLiteral [] (new_ParserState [] () 0 1 1) = (Matched [], new_ParserState [] () 0 1 1)
   \<and> matchClass regexp_empty (new_ParserState [] () 0 1 1)
       = (Matched [], (new_ParserState [] () 0 1 1)\<lparr>offset := 1\<rparr>)
   \<and> matchChar (js ''xyz'') 97 (new_ParserState (js ''a'') () 0 1 1)
       = (Matched (js ''xyz''), (new_ParserState (js ''a'') () 0 1 1)\<lparr>offset := 1\<rparr>)
   \<and> matchLiteralIC toLowerCase_basic [0x69, 0x307] (new_ParserState [0x130] () 0 1 1)
       = (Matched [0x130], (new_ParserState [0x130] () 0 1 1)\<lparr>offset := 2\<rparr>)"
  by (simp add: matchLiteral_def matchClass_def matchChar_def matchLiteralIC_def charAt_def
                charCodeAt_def substr_def toLowerCase_basic_def toLowerCase_unit_def js_def
                new_ParserState_def regexp_empty_def Let_def)

section \<open>Properties of the error description\<close>

lemma remdups_adj_Cons_tl: "remdups_adj (x # xs) = x # tl (remdups_adj (x # xs))"
  by (cases xs) auto

lemma dedup_loop_eq:
  "1 \<le> j \<Longrightarrow> j \<le> i \<Longrightarrow> i \<le> length ds \<Longrightarrow>
   dedup_loop ds i j = take j ds @ tl (remdups_adj (drop (i - 1) ds))"
proof (induction ds i j rule: dedup_loop.induct)
  case (1 ds i j)
  show ?case
  proof (cases "i < length ds")
    case False
    then have i: "i = length ds" using "1.prems" by simp
    have lt: "i - 1 < length ds" and su: "Suc (i - 1) = length ds" using i "1.prems" by simp_all
    have "drop (i - 1) ds = ds ! (i - 1) # drop (Suc (i - 1)) ds"
      using lt by (simp add: Cons_nth_drop_Suc)
    then have "drop (i - 1) ds = [ds ! (i - 1)]" using su by simp
    then show ?thesis using False by (subst dedup_loop.simps) simp
  next
    case True
    define a where "a = ds ! (i - 1)"
    define b where "b = ds ! i"
    have i1: "Suc (i - 1) = i" using "1.prems" by simp
    have dri: "drop i ds = b # drop (Suc i) ds"
      using True by (simp add: Cons_nth_drop_Suc b_def)
    have lt: "i - 1 < length ds" using True by simp
    have "drop (i - 1) ds = a # drop (Suc (i - 1)) ds"
      using lt by (simp add: Cons_nth_drop_Suc a_def)
    then have dr: "drop (i - 1) ds = a # b # drop (Suc i) ds"
      using i1 dri by simp
    show ?thesis
    proof (cases "a = b")
      case False
      have jl: "j < length ds" using "1.prems" True by simp
      have tk: "take (Suc j) (ds[j := b]) = take j ds @ [b]"
        using jl by (simp add: take_Suc_conv_app_nth)
      have dru: "drop i (ds[j := b]) = drop i ds"
      proof (cases "j = i")
        case True
        then show ?thesis by (simp add: b_def)
      next
        case False
        then have "j < i" using "1.prems" by simp
        then show ?thesis by simp
      qed
      have "dedup_loop ds i j = dedup_loop (ds[j := b]) (i + 1) (j + 1)"
        using True False by (subst dedup_loop.simps) (simp add: a_def b_def)
      also have "\<dots> = take (j + 1) (ds[j := b]) @ tl (remdups_adj (drop ((i + 1) - 1) (ds[j := b])))"
        using "1.IH"(1) [OF True] False "1.prems" True by (simp add: a_def b_def)
      also have "\<dots> = take j ds @ remdups_adj (b # drop (Suc i) ds)"
        using tk dru dri by simp
      also have "\<dots> = take j ds @ tl (remdups_adj (drop (i - 1) ds))"
        using False dr by simp
      finally show ?thesis .
    next
      case same: True
      have "dedup_loop ds i j = dedup_loop ds (i + 1) j"
        using True same by (subst dedup_loop.simps) (simp add: a_def b_def)
      also have "\<dots> = take j ds @ tl (remdups_adj (drop ((i + 1) - 1) ds))"
        using "1.IH"(2) [OF True] same "1.prems" True by (simp add: a_def b_def)
      also have "\<dots> = take j ds @ tl (remdups_adj (drop (i - 1) ds))"
        using same dr dri by simp
      finally show ?thesis .
    qed
  qed
qed

lemma dedup_eq: "dedup ds = remdups_adj ds"
proof (cases ds)
  case Nil
  then show ?thesis by (simp add: dedup_def)
next
  case (Cons x xs)
  have "dedup_loop ds 1 1 = take 1 ds @ tl (remdups_adj (drop (1 - 1) ds))"
    by (rule dedup_loop_eq) (simp_all add: Cons)
  then show ?thesis
    using remdups_adj_Cons_tl [of x xs] by (simp add: dedup_def Cons)
qed

lemma joinDescriptions_nonempty: "ds \<noteq> [] \<Longrightarrow> joinDescriptions ds = join_phrases ds"
proof (induction ds rule: join_phrases.induct)
  case (4 a b c ds)
  have "js_index (a # b # c # ds) (int (length (a # b # c # ds)) - 1) = Some (last (a # b # c # ds))"
    unfolding js_index_def by (simp add: last_conv_nth nat_add_distrib)
  then show ?case by (simp add: joinDescriptions_def to_string_def)
qed (simp_all add: joinDescriptions_def)

lemma distinct_remdups_adj_sorted: "sorted xs \<Longrightarrow> distinct (remdups_adj xs)"
  by (induction xs rule: remdups_adj.induct) auto

lemma dedup_sort: "dedup (sort ps) = remdups (sort ps)"
proof -
  have "remdups_adj (sort ps) = remdups (sort ps)"
    by (rule sorted_distinct_set_unique)
       (simp_all add: distinct_remdups_adj_sorted)
  then show ?thesis by (simp add: dedup_eq)
qed

lemma remdups_sort_set: "set ps = set qs \<Longrightarrow> remdups (sort ps) = remdups (sort qs)"
  by (rule sorted_distinct_set_unique) simp_all

lemma describeExpected_eq:
  "exps \<noteq> [] \<Longrightarrow>
   describeExpected exps = join_phrases (remdups (sort (map describeExpectation exps)))"
proof -
  assume ne: "exps \<noteq> []"
  have "set (remdups (sort (map describeExpectation exps))) \<noteq> {}" using ne by simp
  then have "remdups (sort (map describeExpectation exps)) \<noteq> []" by (metis set_empty)
  then show ?thesis
    by (simp add: describeExpected_def dedup_sort joinDescriptions_nonempty)
qed

text \<open>
  Claim C8. For every sequence of expectations that is not empty, \<open>describeExpected\<close>
  renders each expectation to its phrase, sorts the phrases lexicographically, removes
  the duplicates and joins the result: one phrase unchanged, two with \<open>or\<close>, three or
  more with commas and \<open>, or\<close> before the last. So the result is the same for every
  sequence with the same elements, in any order and any multiplicity; for all \<open>a\<close> and
  \<open>b\<close>, the sequences \<open>[a, b, a]\<close>, \<open>[a, b]\<close> and \<open>[b, a]\<close> are described alike.
\<close>

theorem describeExpected_sorted_distinct:
  assumes "exps \<noteq> []"
  shows "describeExpected exps = join_phrases (remdups (sort (map describeExpectation exps)))
       \<and> (\<forall>other. set other = set exps \<longrightarrow> describeExpected other = describeExpected exps)
       \<and> describeExpected [a, b, a] = describeExpected [a, b]
       \<and> describeExpected [a, b] = describeExpected [b, a]"
proof (intro conjI allI impI)
  show "describeExpected exps = join_phrases (remdups (sort (map describeExpectation exps)))"
    by (rule describeExpected_eq [OF assms])
  show "describeExpected [a, b, a] = describeExpected [a, b]"
    by (simp only: describeExpected_def dedup_sort)
       (rule arg_cong [where f = joinDescriptions], rule remdups_sort_set, auto)
  show "describeExpected [a, b] = describeExpected [b, a]"
    by (simp only: describeExpected_def dedup_sort)
       (rule arg_cong [where f = joinDescriptions], rule remdups_sort_set, auto)
next
  fix other assume "set other = set exps"
  then have "remdups (sort (map describeExpectation other)) = remdups (sort (map describeExpectation exps))"
    by (intro remdups_sort_set) simp
  then show "describeExpected other = describeExpected exps"
    by (simp only: describeExpected_def dedup_sort)
qed

text \<open>An instance: four expectations, one of them twice.\<close>

theorem describeExpected_sorted_distinct_witness:
  "[Literal (js ''b''), End, Literal (js ''b''), Any] \<noteq> []
   \<and> set [Any, Literal (js ''b''), End] = set [Literal (js ''b''), End, Literal (js ''b''), Any]
   \<and> describeExpected [Any, Literal (js ''b''), End]
       = describeExpected [Literal (js ''b''), End, Literal (js ''b''), Any]
   \<and> describeExpected [Literal (js ''b''), End, Literal (js ''b''), Any]
       = js ''\"b\", any character, or end of input''"
proof -
  have h: "[Literal (js ''b''), End, Literal (js ''b''), Any] \<noteq> []" by simp
  have st: "set [Any, Literal (js ''b''), End] = set [Literal (js ''b''), End, Literal (js ''b''), Any]"
    by auto
  have ev: "join_phrases (remdups (sort (map describeExpectation [Literal (js ''b''), End, Literal (js ''b''), Any])))
          = js ''\"b\", any character, or end of input''"
    by code_simp
  show ?thesis
    using h st ev describeExpected_sorted_distinct [OF h, of End End] by simp
qed

text \<open>
  Claim C9 at the empty string. The test \<open>found ? ... : ...\<close> takes the empty string for
  \<open>null\<close>: \<open>describeFound\<close> of the empty string, which is a string and not \<open>null\<close>, is
  the phrase \<open>end of input\<close> and not the quoted text. The method \<open>expected\<close> passes the
  matched text as \<open>found\<close>, which is empty whenever mark and offset coincide: called in
  the middle of the input \<open>ab\<close>, it reports that the end of the input was found.
\<close>

theorem describeFound_empty_string:
  "describeFound (Some []) = js ''end of input''
   \<and> state_expected (js ''digit'') None ((new_ParserState (js ''ab'') () 0 1 1)\<lparr>mark := 1, offset := 1\<rparr>)
     = Thrown \<lparr>message = js ''Expected digit but end of input found.'',
               se_location = \<lparr>loc_source = (),
                               loc_start = \<lparr>pos_offset = 1, pos_line = 1, pos_column = 2\<rparr>,
                               loc_end = \<lparr>pos_offset = 1, pos_line = 1, pos_column = 2\<rparr>\<rparr>,
               se_expected = Some [User (js ''digit'')], se_found = Some []\<rparr>"
proof
  show "describeFound (Some []) = js ''end of input''"
    by (simp add: describeFound_def)
  show "state_expected (js ''digit'') None ((new_ParserState (js ''ab'') () 0 1 1)\<lparr>mark := 1, offset := 1\<rparr>)
     = Thrown \<lparr>message = js ''Expected digit but end of input found.'',
               se_location = \<lparr>loc_source = (),
                               loc_start = \<lparr>pos_offset = 1, pos_line = 1, pos_column = 2\<rparr>,
                               loc_end = \<lparr>pos_offset = 1, pos_line = 1, pos_column = 2\<rparr>\<rparr>,
               se_expected = Some [User (js ''digit'')], se_found = Some []\<rparr>"
    by code_simp
qed

lemma describeFound_nonempty:
  "f \<noteq> [] \<Longrightarrow> describeFound (Some f) = [dquote] @ literalEscape f @ [dquote]"
  by (simp add: describeFound_def)

lemma describeFound_null: "describeFound None = js ''end of input''"
  by (simp add: describeFound_def)


section \<open>Properties of parsing\<close>

lemma computePosDetails_total:
  assumes "cache s 0 \<noteq> None"
  shows "\<exists>d s'. p_computePosDetails s pos = Inr (d, s') \<and> cache s' 0 \<noteq> None
            \<and> input s' = input s \<and> source s' = source s"
proof (cases "cache s pos")
  case (Some d)
  then show ?thesis using assms by (simp add: p_computePosDetails_def)
next
  case None
  have "0 < pos" using None assms by (cases pos) auto
  from scan_back_finds [of "cache s" pos, OF assms this] obtain p d
    where "scan_back (cache s) pos = Some (p, d)" by blast
  then show ?thesis
    using None assms \<open>0 < pos\<close> by (simp add: p_computePosDetails_def Let_def)
qed

lemma computeLocation_total:
  assumes "cache s 0 \<noteq> None"
  shows "\<exists>loc s'. p_computeLocation s startPos endPos = Inr (loc, s')
            \<and> pos_offset (loc_start loc) = startPos \<and> pos_offset (loc_end loc) = endPos
            \<and> loc_source loc = source s"
proof -
  from computePosDetails_total [OF assms, of startPos] obtain d1 s1
    where 1: "p_computePosDetails s startPos = Inr (d1, s1)" and c1: "cache s1 0 \<noteq> None"
      and src1: "source s1 = source s" by blast
  from computePosDetails_total [OF c1, of endPos] obtain d2 s2
    where 2: "p_computePosDetails s1 endPos = Inr (d2, s2)" and src2: "source s2 = source s1" by blast
  show ?thesis using 1 2 src1 src2 by (simp add: p_computeLocation_def)
qed

lemma buildError_root:
  assumes "cache s 0 \<noteq> None" and "expected s = root # rest"
  shows "\<exists>loc s'. buildError s =
            Inr (buildStructuredError (variants root)
                   (if frame_offset root < length (input s)
                    then Some (charAt (input s) (frame_offset root)) else None) loc, s')
          \<and> pos_offset (loc_start loc) = frame_offset root"
proof (cases "frame_offset root < length (input s)")
  case True
  from computeLocation_total [OF assms(1), of "frame_offset root" "frame_offset root + 1"]
  obtain loc s' where "p_computeLocation s (frame_offset root) (frame_offset root + 1) = Inr (loc, s')"
    and "pos_offset (loc_start loc) = frame_offset root" by blast
  then show ?thesis using True assms(2) by (auto simp: buildError_def Let_def)
next
  case False
  from computeLocation_total [OF assms(1), of "frame_offset root" "frame_offset root"]
  obtain loc s' where "p_computeLocation s (frame_offset root) (frame_offset root) = Inr (loc, s')"
    and "pos_offset (loc_start loc) = frame_offset root" by blast
  then show ?thesis using False assms(2) by (auto simp: buildError_def Let_def)
qed

text \<open>
  Claim C3, as the code has it. For every rule function that returns on the state with
  the root frame pushed: if it returns a result other than \<open>FAILED\<close> and the current
  offset equals \<open>input.length\<close>, \<open>parse\<close> returns that result unchanged and builds no
  error. If it returns such a result and the offset is strictly less than
  \<open>input.length\<close>, \<open>parse\<close> passes an end-of-input expectation to \<open>_expect\<close> at the
  current offset, which records it on the top frame unless the recorded offset of that
  frame is ahead of the current offset (then it is ignored), and raises the error built
  from the root frame: with the root frame on top and not ahead, the error is at the
  current offset and its expected list ends with end of input; with the root frame
  ahead, the error is at the offset of the root frame and carries its variants alone.
  If the rule function returns \<open>FAILED\<close>, \<open>parse\<close> raises the error built from the root
  frame. The error built from the root frame carries the variants of the bottom frame
  of the stack, the character found at the offset of that frame (or \<open>null\<close> at the end
  of the input), and a location that starts there.
\<close>

theorem parse_outcomes:
  fixes ruleParseFunc :: "('src, 'r) ruleFn"
  assumes "ruleParseFunc (p_begin s) = Inr (res, s1)"
  shows "(\<forall>r. res = Matched r \<and> offset s1 = length (input s1) \<longrightarrow> parse ruleParseFunc s = Inr r)
       \<and> (\<forall>r stack tf. res = Matched r \<and> offset s1 < length (input s1) \<and> expected s1 = stack @ [tf] \<longrightarrow>
             parse ruleParseFunc s =
               throw_buildError
                 (s1\<lparr>expected := stack @
                    [if offset s1 < frame_offset tf then tf
                     else if frame_offset tf < offset s1
                          then \<lparr>frame_offset = offset s1, variants = [End]\<rparr>
                          else tf\<lparr>variants := variants tf @ [End]\<rparr>]\<rparr>))
       \<and> (\<forall>r root. res = Matched r \<and> offset s1 < length (input s1) \<and> expected s1 = [root]
                   \<and> frame_offset root \<le> offset s1 \<and> cache s1 0 \<noteq> None \<longrightarrow>
             (\<exists>loc. parse ruleParseFunc s =
                      Inl (Thrown (buildStructuredError
                             ((if frame_offset root = offset s1 then variants root else []) @ [End])
                             (Some (charAt (input s1) (offset s1))) loc))
                  \<and> pos_offset (loc_start loc) = offset s1))
       \<and> (\<forall>r root. res = Matched r \<and> offset s1 < length (input s1) \<and> expected s1 = [root]
                   \<and> offset s1 < frame_offset root \<and> cache s1 0 \<noteq> None \<longrightarrow>
             (\<exists>loc. parse ruleParseFunc s =
                      Inl (Thrown (buildStructuredError (variants root)
                             (if frame_offset root < length (input s1)
                              then Some (charAt (input s1) (frame_offset root)) else None) loc))
                  \<and> pos_offset (loc_start loc) = frame_offset root))
       \<and> (res = FAILED \<longrightarrow> parse ruleParseFunc s = throw_buildError s1)
       \<and> (\<forall>st root rest. expected st = root # rest \<and> cache st 0 \<noteq> None \<longrightarrow>
             (\<exists>loc. (throw_buildError st :: 'src failure + 'r) =
                      Inl (Thrown (buildStructuredError (variants root)
                             (if frame_offset root < length (input st)
                              then Some (charAt (input st) (frame_offset root)) else None) loc))
                  \<and> pos_offset (loc_start loc) = frame_offset root))"
proof -
  have tb: "\<exists>loc. (throw_buildError st :: 'src failure + 'r) =
                      Inl (Thrown (buildStructuredError (variants root)
                             (if frame_offset root < length (input st)
                              then Some (charAt (input st) (frame_offset root)) else None) loc))
                  \<and> pos_offset (loc_start loc) = frame_offset root"
    if "expected st = root # rest" "cache st 0 \<noteq> None" for st :: "'src ParserState" and root rest
  proof -
    from buildError_root [OF that(2) that(1)] obtain loc s'
      where "buildError st =
            Inr (buildStructuredError (variants root)
                   (if frame_offset root < length (input st)
                    then Some (charAt (input st) (frame_offset root)) else None) loc, s')"
        and "pos_offset (loc_start loc) = frame_offset root" by blast
    then show ?thesis by (auto simp: throw_buildError_def)
  qed
  have left: "parse ruleParseFunc s =
               throw_buildError
                 (s1\<lparr>expected := stack @
                    [if offset s1 < frame_offset tf then tf
                     else if frame_offset tf < offset s1
                          then \<lparr>frame_offset = offset s1, variants = [End]\<rparr>
                          else tf\<lparr>variants := variants tf @ [End]\<rparr>]\<rparr>)"
    if "res = Matched r" "offset s1 < length (input s1)" "expected s1 = stack @ [tf]" for r stack tf
  proof -
    have "s1\<lparr>offset := offset s1\<rparr> = s1" by simp
    with p_expect_step [OF that(3), of End "offset s1"]
    have "p_expect End s1 =
        Inr (s1\<lparr>expected := stack @
        [if offset s1 < frame_offset tf then tf
         else if offset s1 > frame_offset tf then \<lparr>frame_offset = offset s1, variants = [End]\<rparr>
         else tf\<lparr>variants := variants tf @ [End]\<rparr>]\<rparr>)" by simp
    then show ?thesis using assms that(1,2) by (simp add: parse_def)
  qed
  show ?thesis
  proof (intro conjI allI impI)
    fix r assume "res = Matched r \<and> offset s1 = length (input s1)"
    then show "parse ruleParseFunc s = Inr r" using assms by (simp add: parse_def)
  next
    fix r stack tf
    assume "res = Matched r \<and> offset s1 < length (input s1) \<and> expected s1 = stack @ [tf]"
    then show "parse ruleParseFunc s =
               throw_buildError
                 (s1\<lparr>expected := stack @
                    [if offset s1 < frame_offset tf then tf
                     else if frame_offset tf < offset s1
                          then \<lparr>frame_offset = offset s1, variants = [End]\<rparr>
                          else tf\<lparr>variants := variants tf @ [End]\<rparr>]\<rparr>)"
      using left by blast
  next
    fix r root
    assume a: "res = Matched r \<and> offset s1 < length (input s1) \<and> expected s1 = [root]
                   \<and> frame_offset root \<le> offset s1 \<and> cache s1 0 \<noteq> None"
    define root' where "root' = (if frame_offset root < offset s1
                          then \<lparr>frame_offset = offset s1, variants = [End]\<rparr>
                          else root\<lparr>variants := variants root @ [End]\<rparr>)"
    define s2 where "s2 = s1\<lparr>expected := [root']\<rparr>"
    have p: "parse ruleParseFunc s = throw_buildError s2"
      using left [of r "[]" root] a by (simp add: s2_def root'_def)
    have e: "expected s2 = root' # []" and c: "cache s2 0 \<noteq> None"
      using a by (simp_all add: s2_def)
    have fo: "frame_offset root' = offset s1" using a by (simp add: root'_def)
    have vs: "variants root' = (if frame_offset root = offset s1 then variants root else []) @ [End]"
      using a by (auto simp: root'_def)
    have i: "input s2 = input s1" by (simp add: s2_def)
    from tb [OF e c] show "\<exists>loc. parse ruleParseFunc s =
                      Inl (Thrown (buildStructuredError
                             ((if frame_offset root = offset s1 then variants root else []) @ [End])
                             (Some (charAt (input s1) (offset s1))) loc))
                  \<and> pos_offset (loc_start loc) = offset s1"
      using a unfolding p fo vs i by simp
  next
    fix r root
    assume a: "res = Matched r \<and> offset s1 < length (input s1) \<and> expected s1 = [root]
                   \<and> offset s1 < frame_offset root \<and> cache s1 0 \<noteq> None"
    have p: "parse ruleParseFunc s = throw_buildError (s1\<lparr>expected := [root]\<rparr>)"
      using left [of r "[]" root] a by simp
    have "s1\<lparr>expected := [root]\<rparr> = s1" using a by simp
    then have p': "parse ruleParseFunc s = throw_buildError s1" using p by simp
    have e: "expected s1 = root # []" and c: "cache s1 0 \<noteq> None" using a by simp_all
    from tb [OF e c] show "\<exists>loc. parse ruleParseFunc s =
                      Inl (Thrown (buildStructuredError (variants root)
                             (if frame_offset root < length (input s1)
                              then Some (charAt (input s1) (frame_offset root)) else None) loc))
                  \<and> pos_offset (loc_start loc) = frame_offset root"
      unfolding p' .
  next
    assume "res = FAILED"
    then show "parse ruleParseFunc s = throw_buildError s1" using assms by (simp add: parse_def)
  next
    fix st :: "'src ParserState" and root rest
    assume "expected st = root # rest \<and> cache st 0 \<noteq> None"
    then show "\<exists>loc. (throw_buildError st :: 'src failure + 'r) =
                      Inl (Thrown (buildStructuredError (variants root)
                             (if frame_offset root < length (input st)
                              then Some (charAt (input st) (frame_offset root)) else None) loc))
                  \<and> pos_offset (loc_start loc) = frame_offset root"
      using tb by blast
  qed
qed

text \<open>An instance of each case: the literal \<open>a\<close> on the inputs \<open>a\<close> and \<open>ab\<close>, the rule
  for \<open>"a" "b" "c" / "a"\<close> on the input \<open>abab\<close>, and the literal \<open>x\<close> on the empty
  input.\<close>

theorem parse_outcomes_witness:
  "match_or_expect (js ''a'') (p_begin (new_ParserState (js ''a'') () 0 1 1))
      = Inr (Matched (js ''a''), (p_begin (new_ParserState (js ''a'') () 0 1 1))\<lparr>offset := 1\<rparr>)
   \<and> parse (match_or_expect (js ''a'')) (new_ParserState (js ''a'') () 0 1 1)
      = Inr (js ''a'')
   \<and> match_or_expect (js ''a'') (p_begin (new_ParserState (js ''ab'') () 0 1 1))
      = Inr (Matched (js ''a''), (p_begin (new_ParserState (js ''ab'') () 0 1 1))\<lparr>offset := 1\<rparr>)
   \<and> parse (match_or_expect (js ''a'')) (new_ParserState (js ''ab'') () 0 1 1)
      = Inl (Thrown \<lparr>message = js ''Expected end of input but \"b\" found.'',
                      se_location = \<lparr>loc_source = (),
                                      loc_start = \<lparr>pos_offset = 1, pos_line = 1, pos_column = 2\<rparr>,
                                      loc_end = \<lparr>pos_offset = 2, pos_line = 1, pos_column = 3\<rparr>\<rparr>,
                      se_expected = Some [End], se_found = Some (js ''b'')\<rparr>)
   \<and> rule_abc_or_a (p_begin (new_ParserState (js ''abab'') () 0 1 1))
      = Inr (Matched (js ''a''),
             (p_begin (new_ParserState (js ''abab'') () 0 1 1))
               \<lparr>offset := 1, expected := [\<lparr>frame_offset = 2, variants = [Literal (js ''c'')]\<rparr>]\<rparr>)
   \<and> parse rule_abc_or_a (new_ParserState (js ''abab'') () 0 1 1)
      = Inl (Thrown \<lparr>message = js ''Expected \"c\" but \"a\" found.'',
                      se_location = \<lparr>loc_source = (),
                                      loc_start = \<lparr>pos_offset = 2, pos_line = 1, pos_column = 3\<rparr>,
                                      loc_end = \<lparr>pos_offset = 3, pos_line = 1, pos_column = 4\<rparr>\<rparr>,
                      se_expected = Some [Literal (js ''c'')], se_found = Some (js ''a'')\<rparr>)
   \<and> match_or_expect (js ''x'') (p_begin (new_ParserState [] () 0 1 1))
      = Inr (FAILED, (p_begin (new_ParserState [] () 0 1 1))
                       \<lparr>expected := [\<lparr>frame_offset = 0, variants = [Literal (js ''x'')]\<rparr>]\<rparr>)
   \<and> parse (match_or_expect (js ''x'')) (new_ParserState [] () 0 1 1)
      = Inl (Thrown \<lparr>message = js ''Expected \"x\" but end of input found.'',
                      se_location = \<lparr>loc_source = (),
                                      loc_start = \<lparr>pos_offset = 0, pos_line = 1, pos_column = 1\<rparr>,
                                      loc_end = \<lparr>pos_offset = 0, pos_line = 1, pos_column = 1\<rparr>\<rparr>,
                      se_expected = Some [Literal (js ''x'')], se_found = None\<rparr>)"
proof -
  let ?a = "new_ParserState (js ''a'') () 0 1 (1::nat)"
  let ?b = "new_ParserState (js ''ab'') () 0 1 (1::nat)"
  let ?d = "new_ParserState (js ''abab'') () 0 1 (1::nat)"
  let ?c = "new_ParserState [] () 0 1 (1::nat)"
  let ?a1 = "(p_begin ?a)\<lparr>offset := 1\<rparr>"
  let ?b1 = "(p_begin ?b)\<lparr>offset := 1\<rparr>"
  let ?d1 = "(p_begin ?d)\<lparr>offset := 1, expected := [\<lparr>frame_offset = 2, variants = [Literal (js ''c'')]\<rparr>]\<rparr>"
  let ?c1 = "(p_begin ?c)\<lparr>expected := [\<lparr>frame_offset = 0, variants = [Literal (js ''x'')]\<rparr>]\<rparr>"
  have ha: "match_or_expect (js ''a'') (p_begin ?a) = Inr (Matched (js ''a''), ?a1)"
    by (simp add: match_or_expect_def matchLiteral_def substr_def p_begin_def new_ParserState_def js_def Let_def)
  have hb: "match_or_expect (js ''a'') (p_begin ?b) = Inr (Matched (js ''a''), ?b1)"
    by (simp add: match_or_expect_def matchLiteral_def substr_def p_begin_def new_ParserState_def js_def Let_def)
  have hd: "rule_abc_or_a (p_begin ?d) = Inr (Matched (js ''a''), ?d1)"
    by (simp add: rule_abc_or_a_def sequence_abc_def match_or_expect_def matchLiteral_def
                  p_expect_def p_begin_def new_ParserState_def substr_def js_def Let_def)
  have hc: "match_or_expect (js ''x'') (p_begin ?c) = Inr (FAILED, ?c1)"
    by (simp add: match_or_expect_def matchLiteral_def substr_def p_expect_def p_begin_def
                  new_ParserState_def js_def Let_def)
  note ta = parse_outcomes [where ruleParseFunc = "match_or_expect (js ''a'')" and s = "?a"
                and res = "Matched (js ''a'')" and ?s1.0 = "?a1", OF ha]
  note tb = parse_outcomes [where ruleParseFunc = "match_or_expect (js ''a'')" and s = "?b"
                and res = "Matched (js ''a'')" and ?s1.0 = "?b1", OF hb]
  note td = parse_outcomes [where ruleParseFunc = "rule_abc_or_a" and s = "?d"
                and res = "Matched (js ''a'')" and ?s1.0 = "?d1", OF hd]
  note tc = parse_outcomes [where ruleParseFunc = "match_or_expect (js ''x'')" and s = "?c"
                and res = FAILED and ?s1.0 = "?c1", OF hc]
  have ra: "parse (match_or_expect (js ''a'')) ?a = Inr (js ''a'')"
    using ta by (simp add: p_begin_def new_ParserState_def js_def)
  have pb: "Matched (js ''a'') = Matched (js ''a'') \<and> offset ?b1 < length (input ?b1)
            \<and> expected ?b1 = [] @ [\<lparr>frame_offset = 0, variants = []\<rparr>]"
    by (simp add: p_begin_def new_ParserState_def js_def)
  have rb: "parse (match_or_expect (js ''a'')) ?b
      = Inl (Thrown \<lparr>message = js ''Expected end of input but \"b\" found.'',
                      se_location = \<lparr>loc_source = (),
                                      loc_start = \<lparr>pos_offset = 1, pos_line = 1, pos_column = 2\<rparr>,
                                      loc_end = \<lparr>pos_offset = 2, pos_line = 1, pos_column = 3\<rparr>\<rparr>,
                      se_expected = Some [End], se_found = Some (js ''b'')\<rparr>)"
    unfolding tb [THEN conjunct2, THEN conjunct1, rule_format, OF pb] by code_simp
  have pd: "Matched (js ''a'') = Matched (js ''a'') \<and> offset ?d1 < length (input ?d1)
            \<and> expected ?d1 = [] @ [\<lparr>frame_offset = 2, variants = [Literal (js ''c'')]\<rparr>]"
    by (simp add: p_begin_def new_ParserState_def js_def)
  have rd: "parse rule_abc_or_a ?d
      = Inl (Thrown \<lparr>message = js ''Expected \"c\" but \"a\" found.'',
                      se_location = \<lparr>loc_source = (),
                                      loc_start = \<lparr>pos_offset = 2, pos_line = 1, pos_column = 3\<rparr>,
                                      loc_end = \<lparr>pos_offset = 3, pos_line = 1, pos_column = 4\<rparr>\<rparr>,
                      se_expected = Some [Literal (js ''c'')], se_found = Some (js ''a'')\<rparr>)"
    unfolding td [THEN conjunct2, THEN conjunct1, rule_format, OF pd] by code_simp
  have rc: "parse (match_or_expect (js ''x'')) ?c
      = Inl (Thrown \<lparr>message = js ''Expected \"x\" but end of input found.'',
                      se_location = \<lparr>loc_source = (),
                                      loc_start = \<lparr>pos_offset = 0, pos_line = 1, pos_column = 1\<rparr>,
                                      loc_end = \<lparr>pos_offset = 0, pos_line = 1, pos_column = 1\<rparr>\<rparr>,
                      se_expected = Some [Literal (js ''x'')], se_found = None\<rparr>)"
    unfolding tc [THEN conjunct2, THEN conjunct2, THEN conjunct2, THEN conjunct2, THEN conjunct1,
                  rule_format, OF refl]
    by code_simp
  show ?thesis by (intro conjI) (rule ha hb hc hd ra rb rc rd)+
qed

text \<open>
  The rule for \<open>"a" "b" "c" / "a"\<close> on the input \<open>abx\<close> returns the match \<open>a\<close> at
  offset 1, short of the end of the input; the root frame has recorded the literal
  \<open>c\<close> at offset 2. The end-of-input expectation at offset 1 is ignored: the error
  raised expects \<open>c\<close> alone, at offset 2.
\<close>

theorem parse_end_ignored_counterexample:
  "rule_abc_or_a (p_begin (new_ParserState (js ''abx'') () 0 1 1))
     = Inr (Matched (js ''a''),
            (p_begin (new_ParserState (js ''abx'') () 0 1 1))
              \<lparr>offset := 1, expected := [\<lparr>frame_offset = 2, variants = [Literal (js ''c'')]\<rparr>]\<rparr>)
   \<and> parse rule_abc_or_a (new_ParserState (js ''abx'') () 0 1 1)
     = Inl (Thrown \<lparr>message = js ''Expected \"c\" but \"x\" found.'',
                     se_location = \<lparr>loc_source = (),
                                     loc_start = \<lparr>pos_offset = 2, pos_line = 1, pos_column = 3\<rparr>,
                                     loc_end = \<lparr>pos_offset = 3, pos_line = 1, pos_column = 4\<rparr>\<rparr>,
                     se_expected = Some [Literal (js ''c'')], se_found = Some (js ''x'')\<rparr>)"
proof
  show "rule_abc_or_a (p_begin (new_ParserState (js ''abx'') () 0 1 1))
     = Inr (Matched (js ''a''),
            (p_begin (new_ParserState (js ''abx'') () 0 1 1))
              \<lparr>offset := 1, expected := [\<lparr>frame_offset = 2, variants = [Literal (js ''c'')]\<rparr>]\<rparr>)"
    by (simp add: rule_abc_or_a_def sequence_abc_def match_or_expect_def matchLiteral_def
                  p_expect_def p_begin_def new_ParserState_def substr_def js_def Let_def)
  show "parse rule_abc_or_a (new_ParserState (js ''abx'') () 0 1 1)
     = Inl (Thrown \<lparr>message = js ''Expected \"c\" but \"x\" found.'',
                     se_location = \<lparr>loc_source = (),
                                     loc_start = \<lparr>pos_offset = 2, pos_line = 1, pos_column = 3\<rparr>,
                                     loc_end = \<lparr>pos_offset = 3, pos_line = 1, pos_column = 4\<rparr>\<rparr>,
                     se_expected = Some [Literal (js ''c'')], se_found = Some (js ''x'')\<rparr>)"
    by code_simp
qed

lemma describeExpected_Nil: "describeExpected [] = js '', or undefined''"
  by (simp add: describeExpected_def dedup_def joinDescriptions_def js_index_def to_string_def js_def)

text \<open>
  Claim C10. \<open>describeExpected\<close> reads inside its list of phrases only for a sequence
  of expectations that is not empty: on the empty sequence the general branch of the
  join reads the element at \<open>descriptions.length - 1\<close> of the empty list of phrases,
  which is outside it. The read is the branch \<open>None\<close> of \<open>js_index\<close>: JavaScript gives
  \<open>undefined\<close> there, and the concatenation makes the phrase \<open>, or undefined\<close> of it.
  That branch is reached through \<open>buildError\<close> whenever the variant list of the root
  frame is empty, as it is after a rule function that fails without a call of
  \<open>_expect\<close>.
\<close>

theorem describeExpected_empty_reads_undefined:
  "(js_index (dedup (sort (map describeExpectation exps)))
       (int (length (dedup (sort (map describeExpectation exps)))) - 1) = None) = (exps = [])
   \<and> describeExpected [] = js '', or undefined''
   \<and> (\<forall>root rest. expected s = root # rest \<and> variants root = [] \<and> cache s 0 \<noteq> None \<longrightarrow>
         (\<exists>err s'. buildError s = Inr (err, s') \<and> se_expected err = Some []
            \<and> message err = js ''Expected , or undefined but '' @ describeFound (se_found err) @ js '' found.''))
   \<and> (\<exists>err. parse (\<lambda>st. Inr (FAILED, st)) (new_ParserState inp src off ln col) = Inl (Thrown err)
         \<and> se_expected err = Some []
         \<and> message err = js ''Expected , or undefined but '' @ describeFound (se_found err) @ js '' found.'')"
proof (intro conjI allI impI)
  show "(js_index (dedup (sort (map describeExpectation exps)))
       (int (length (dedup (sort (map describeExpectation exps)))) - 1) = None) = (exps = [])"
  proof (cases "exps = []")
    case True
    then show ?thesis by (simp add: dedup_def js_index_def)
  next
    case False
    then have "sort (map describeExpectation exps) \<noteq> []"
      by (metis length_0_conv length_map length_sort)
    then have "dedup (sort (map describeExpectation exps)) \<noteq> []"
      by (simp add: dedup_eq)
    then have "0 < length (dedup (sort (map describeExpectation exps)))" by simp
    then show ?thesis using False by (simp add: js_index_def)
  qed
  show "describeExpected [] = js '', or undefined''" by (rule describeExpected_Nil)
next
  fix root rest
  assume a: "expected s = root # rest \<and> variants root = [] \<and> cache s 0 \<noteq> None"
  from buildError_root [of s root rest] a obtain loc s'
    where "buildError s =
            Inr (buildStructuredError (variants root)
                   (if frame_offset root < length (input s)
                    then Some (charAt (input s) (frame_offset root)) else None) loc, s')" by blast
  then show "\<exists>err s'. buildError s = Inr (err, s') \<and> se_expected err = Some []
            \<and> message err = js ''Expected , or undefined but '' @ describeFound (se_found err) @ js '' found.''"
    using a by (simp add: buildStructuredError_def buildMessage_def describeExpected_Nil js_def)
next
  let ?s = "p_begin (new_ParserState inp src off ln col)"
  let ?root = "\<lparr>frame_offset = off, variants = []\<rparr>"
  have e: "expected ?s = ?root # []" and c: "cache ?s 0 \<noteq> None"
    by (simp_all add: p_begin_def new_ParserState_def)
  from buildError_root [OF c e] obtain loc s'
    where "buildError ?s =
            Inr (buildStructuredError (variants ?root)
                   (if frame_offset ?root < length (input ?s)
                    then Some (charAt (input ?s) (frame_offset ?root)) else None) loc, s')"
    by blast
  then show "\<exists>err. parse (\<lambda>st. Inr (FAILED, st)) (new_ParserState inp src off ln col) = Inl (Thrown err)
         \<and> se_expected err = Some []
         \<and> message err = js ''Expected , or undefined but '' @ describeFound (se_found err) @ js '' found.''"
    by (simp add: parse_def throw_buildError_def buildStructuredError_def buildMessage_def describeExpected_Nil js_def)
qed

text \<open>An instance: the root frame without variants on the input \<open>a\<close>.\<close>

theorem describeExpected_empty_reads_undefined_witness:
  "expected (p_begin (new_ParserState (js ''a'') () 0 1 1)) = \<lparr>frame_offset = 0, variants = []\<rparr> # []
   \<and> variants \<lparr>frame_offset = 0, variants = []\<rparr> = []
   \<and> cache (p_begin (new_ParserState (js ''a'') () 0 1 1)) 0 \<noteq> None
   \<and> (\<exists>err s'. buildError (p_begin (new_ParserState (js ''a'') () 0 1 1)) = Inr (err, s')
          \<and> message err = js ''Expected , or undefined but \"a\" found.'')"
proof -
  let ?s = "p_begin (new_ParserState (js ''a'') () 0 1 (1::nat))"
  have h: "expected ?s = \<lparr>frame_offset = 0, variants = []\<rparr> # []
         \<and> variants \<lparr>frame_offset = 0, variants = []\<rparr> = [] \<and> cache ?s 0 \<noteq> None"
    by (simp add: p_begin_def new_ParserState_def)
  from describeExpected_empty_reads_undefined [of "[]" ?s, THEN conjunct2, THEN conjunct2, THEN conjunct1, rule_format, OF h]
  obtain err s'
    where b: "buildError ?s = Inr (err, s')"
      and m: "message err = js ''Expected , or undefined but '' @ describeFound (se_found err) @ js '' found.''"
    by blast
  have "buildError ?s = Inr (err, s') \<Longrightarrow> se_found err = Some (js ''a'')"
    by (auto simp: buildError_def p_begin_def new_ParserState_def buildStructuredError_def Let_def
          charAt_def js_def split: sum.splits)
  then have "se_found err = Some (js ''a'')" using b by simp
  then have "message err = js ''Expected , or undefined but \"a\" found.''"
    using m by (simp add: describeFound_def literalEscape_def replaceAll_def replaceClass_def
                          js_def dquote_def backslash_def)
  then show ?thesis using h b by blast
qed

end
